theory Spec2Isabelle
  imports Complex_Main "HOL-Library.Log_Nat"
begin

section \<open>Floating-point samples\<close>

text \<open>
  The arrays of the program hold NumPy \<^verbatim>\<open>float64\<close> values. A sample is modelled as a
  real number or one of the three special values; arithmetic and comparisons follow
  IEEE 754 on the special values (not-a-number propagates and compares false, a nonzero
  value divided by zero is infinite, zero divided by zero is not-a-number). The
  operations of this section are exact on finite values: they neither round nor
  overflow. The operations that round as \<^verbatim>\<open>float64\<close> does follow in the next section.
  The sign of zero is not modelled.
\<close>

datatype f64 = Fin real | PInf | NInf | NaN

fun fneg :: "f64 \<Rightarrow> f64" where
  "fneg (Fin x) = Fin (- x)"
| "fneg PInf = NInf"
| "fneg NInf = PInf"
| "fneg NaN = NaN"

fun fadd :: "f64 \<Rightarrow> f64 \<Rightarrow> f64" where
  "fadd NaN b = NaN"
| "fadd a NaN = NaN"
| "fadd (Fin x) (Fin y) = Fin (x + y)"
| "fadd PInf NInf = NaN"
| "fadd NInf PInf = NaN"
| "fadd PInf b = PInf"
| "fadd NInf b = NInf"
| "fadd (Fin x) b = b"

definition fsub :: "f64 \<Rightarrow> f64 \<Rightarrow> f64" where
  "fsub a b = fadd a (fneg b)"

text \<open>The sign of a sample that is not NaN: \<open>-1\<close>, \<open>0\<close> or \<open>1\<close>.\<close>

fun fsign :: "f64 \<Rightarrow> int" where
  "fsign (Fin x) = (if x < 0 then - 1 else if x = 0 then 0 else 1)"
| "fsign PInf = 1"
| "fsign NInf = - 1"
| "fsign NaN = 0"

definition signed_inf :: "int \<Rightarrow> f64" where
  "signed_inf s = (if s < 0 then NInf else if s = 0 then NaN else PInf)"

fun is_fin :: "f64 \<Rightarrow> bool" where
  "is_fin (Fin x) = True"
| "is_fin a = False"

fun fmul :: "f64 \<Rightarrow> f64 \<Rightarrow> f64" where
  "fmul NaN b = NaN"
| "fmul a NaN = NaN"
| "fmul (Fin x) (Fin y) = Fin (x * y)"
| "fmul a b = signed_inf (fsign a * fsign b)"

fun fdiv :: "f64 \<Rightarrow> f64 \<Rightarrow> f64" where
  "fdiv NaN b = NaN"
| "fdiv a NaN = NaN"
| "fdiv (Fin x) (Fin y) = (if y = 0 then signed_inf (fsign (Fin x)) else Fin (x / y))"
| "fdiv (Fin x) b = Fin 0"
| "fdiv a (Fin y) = (if y < 0 then fneg a else a)"
| "fdiv a b = NaN"

fun flt :: "f64 \<Rightarrow> f64 \<Rightarrow> bool" where
  "flt NaN b = False"
| "flt a NaN = False"
| "flt (Fin x) (Fin y) = (x < y)"
| "flt a PInf = (a \<noteq> PInf)"
| "flt NInf b = (b \<noteq> NInf)"
| "flt a b = False"

fun fle :: "f64 \<Rightarrow> f64 \<Rightarrow> bool" where
  "fle NaN b = False"
| "fle a NaN = False"
| "fle a b = (a = b \<or> flt a b)"

definition fgt :: "f64 \<Rightarrow> f64 \<Rightarrow> bool" where
  "fgt a b = flt b a"

definition fge :: "f64 \<Rightarrow> f64 \<Rightarrow> bool" where
  "fge a b = fle b a"

section \<open>Rounding to float64\<close>

text \<open>
  The finite \<^verbatim>\<open>float64\<close> values are the numbers \<open>m * 2^e\<close> with \<open>|m| < 2^53\<close> and
  \<open>-1074 \<le> e \<le> 971\<close>. Around a real number \<open>x\<close> they are spaced by \<open>quantum x\<close>:
  \<open>2^(-1074)\<close> below \<open>2^(-1022)\<close>, and \<open>2^(e-52)\<close> where \<open>2^e \<le> |x| < 2^(e+1)\<close>. The
  exponent is read off the bit length of \<open>\<lfloor>|x| * 2^1074\<rfloor>\<close>, the number of whole smallest
  quanta in \<open>|x|\<close>: that number has \<open>e + 1075\<close> bits where \<open>2^e \<le> |x| < 2^(e+1)\<close>.
\<close>

definition quantum :: "real \<Rightarrow> real" where
  "quantum x = 2 powi (max (bitlen \<lfloor>\<bar>x\<bar> * 2 ^ 1074\<rfloor> - 1127) (- 1074))"

text \<open>Rounding to the nearest integer, a tie going to the even neighbour.\<close>

definition round_half_even :: "real \<Rightarrow> int" where
  "round_half_even m =
     (let n = \<lfloor>m\<rfloor>; r = m - of_int n
      in if r < 1 / 2 then n else if 1 / 2 < r then n + 1 else if even n then n else n + 1)"

text \<open>
  IEEE 754 round-to-nearest-even into \<^verbatim>\<open>float64\<close>: the magnitude is rounded to the
  nearest multiple of the quantum, and a result that reaches \<open>2^1024\<close> is the infinity
  of the sign of \<open>x\<close>.
\<close>

definition round64 :: "real \<Rightarrow> f64" where
  "round64 x =
     (let q = quantum x; r = of_int (round_half_even (\<bar>x\<bar> / q)) * q
      in if 2 ^ 1024 \<le> r then (if x < 0 then NInf else PInf) else Fin (sgn x * r))"

text \<open>
  A real number is representable when rounding leaves it unchanged; a sample is a
  \<^verbatim>\<open>float64\<close> value when it is a special value or representable.
\<close>

definition representable :: "real \<Rightarrow> bool" where
  "representable x \<longleftrightarrow> round64 x = Fin x"

fun float64 :: "f64 \<Rightarrow> bool" where
  "float64 (Fin x) = representable x"
| "float64 a = True"

text \<open>
  Subtraction and division as NumPy computes them on \<^verbatim>\<open>float64\<close> operands: the exact
  result of the previous section, rounded. The SOH reductions and the raw
  differential-voltage curve use them: their results are the numbers a caller reads.
  The sums inside \<^verbatim>\<open>cumtrapz\<close> and \<^verbatim>\<open>np.convolve\<close> keep the exact operations, and so
  does \<^verbatim>\<open>np.diff\<close>, whose differences the program sums inside \<^verbatim>\<open>cumtrapz\<close> or tests
  for their sign, which rounding does not change.
\<close>

fun rounded :: "f64 \<Rightarrow> f64" where
  "rounded (Fin x) = round64 x"
| "rounded a = a"

definition fsub64 :: "f64 \<Rightarrow> f64 \<Rightarrow> f64" where
  "fsub64 a b = rounded (fsub a b)"

definition fdiv64 :: "f64 \<Rightarrow> f64 \<Rightarrow> f64" where
  "fdiv64 a b = rounded (fdiv a b)"

section \<open>Python values and exceptions\<close>

text \<open>
  The exceptions the modelled code can raise; all of them are subclasses of Python's
  \<^verbatim>\<open>Exception\<close>, so an \<^verbatim>\<open>except Exception\<close> clause catches each. A computation
  that may raise returns \<open>exn + 'a\<close>, with \<open>Inl\<close> the raised exception.
\<close>

datatype exn = KeyError | ValueError | TypeError | IndexError | AttributeError
  | InvalidInputError

text \<open>
  The values that \<^verbatim>\<open>integrate_charge_discharge\<close> hands on to the cutoff check and to
  the reductions: \<^verbatim>\<open>None\<close>, a NumPy scalar, or a one-dimensional array.
\<close>

datatype pyval = PyNone | Scalar f64 | Array "f64 list"

definition bind :: "exn + 'a \<Rightarrow> ('a \<Rightarrow> exn + 'b) \<Rightarrow> exn + 'b" where
  "bind m f = (case m of Inl e \<Rightarrow> Inl e | Inr v \<Rightarrow> f v)"

text \<open>
  Subscripting \<^verbatim>\<open>v[i]\<close>: \<^verbatim>\<open>None\<close> is not subscriptable (TypeError), a NumPy scalar
  cannot be indexed (IndexError), and an array takes a negative index from its end and
  raises IndexError out of range.
\<close>

definition subscript :: "pyval \<Rightarrow> int \<Rightarrow> exn + f64" where
  "subscript v i =
     (case v of
        PyNone \<Rightarrow> Inl TypeError
      | Scalar x \<Rightarrow> Inl IndexError
      | Array xs \<Rightarrow>
          (if 0 \<le> i \<and> i < int (length xs) then Inr (xs ! nat i)
           else if i < 0 \<and> - int (length xs) \<le> i then Inr (xs ! nat (int (length xs) + i))
           else Inl IndexError))"

text \<open>
  The \<^verbatim>\<open>.values\<close> of a column selection \<^verbatim>\<open>df[label]\<close>: a one-dimensional array when
  the label selects a single column, and a two-dimensional array, one row per row of
  the DataFrame, when the selection is itself a DataFrame, as it is when several
  columns carry the label.
\<close>

datatype ndarray = Vec "f64 list" | Mat "f64 list list"

section \<open>NumPy and SciPy routines used by SOHCalculator\<close>

text \<open>\<^verbatim>\<open>np.diff(x)\<close>: the differences \<open>x[i+1] - x[i]\<close>; empty for fewer than two samples.\<close>

definition np_diff :: "f64 list \<Rightarrow> f64 list" where
  "np_diff xs = map (\<lambda>(a, b). fsub b a) (zip xs (tl xs))"

text \<open>\<^verbatim>\<open>np.cumsum\<close>: the running sum, starting from the first element.\<close>

fun cumsum_from :: "f64 \<Rightarrow> f64 list \<Rightarrow> f64 list" where
  "cumsum_from acc [] = []"
| "cumsum_from acc (x # xs) = fadd acc x # cumsum_from (fadd acc x) xs"

fun np_cumsum :: "f64 list \<Rightarrow> f64 list" where
  "np_cumsum [] = []"
| "np_cumsum (x # xs) = x # cumsum_from x xs"

text \<open>
  \<^verbatim>\<open>scipy.integrate.cumtrapz(y, x, initial=0)\<close> integrates along the last axis. For a
  one-dimensional \<open>x\<close>, with \<open>d = diff(x)\<close>, it raises ValueError unless \<open>len(d)\<close> is the
  length of the last axis of \<open>y\<close> less one, and returns an array of the shape of \<open>y\<close>:
  \<open>[0] ++ cumsum(d * (y[1:] + y[:-1]) / 2.0)\<close> for a one-dimensional \<open>y\<close>, and the same
  for each row of a two-dimensional \<open>y\<close>. A \<open>y\<close> that is \<^verbatim>\<open>None\<close> has no last axis
  (IndexError). A two-dimensional \<open>x\<close> must come with a two-dimensional \<open>y\<close> (ValueError
  otherwise); its rows are differenced one by one and paired with the rows of \<open>y\<close>,
  a single row being broadcast.
\<close>

definition trapezoids :: "f64 list \<Rightarrow> f64 list \<Rightarrow> f64 list" where
  "trapezoids d ys =
     map (\<lambda>(di, y1, y0). fdiv (fmul di (fadd y1 y0)) (Fin 2)) (zip d (zip (tl ys) (butlast ys)))"

text \<open>The length of the last axis of a two-dimensional array, read off its first row.\<close>

definition ncols :: "'a list list \<Rightarrow> nat" where
  "ncols rows = (case rows of [] \<Rightarrow> 0 | r # rs \<Rightarrow> length r)"

text \<open>
  Broadcasting along the first axis: equal numbers of rows pair up, a single row is
  repeated, anything else raises ValueError.
\<close>

definition broadcast_rows :: "'a list \<Rightarrow> 'b list \<Rightarrow> exn + ('a \<times> 'b) list" where
  "broadcast_rows as bs =
     (if length as = length bs then Inr (zip as bs)
      else if length as = 1 then Inr (map (\<lambda>b. (hd as, b)) bs)
      else if length bs = 1 then Inr (map (\<lambda>a. (a, hd bs)) as)
      else Inl ValueError)"

definition cumtrapz :: "ndarray option \<Rightarrow> ndarray \<Rightarrow> exn + ndarray" where
  "cumtrapz y x =
     (case x of
        Vec xs \<Rightarrow>
          (case y of
             None \<Rightarrow> Inl IndexError
           | Some (Vec ys) \<Rightarrow>
               (let d = np_diff xs
                in if int (length d) \<noteq> int (length ys) - 1 then Inl ValueError
                   else Inr (Vec (Fin 0 # np_cumsum (trapezoids d ys))))
           | Some (Mat rows) \<Rightarrow>
               (let d = np_diff xs
                in if int (length d) \<noteq> int (ncols rows) - 1 then Inl ValueError
                   else Inr (Mat (map (\<lambda>ys. Fin 0 # np_cumsum (trapezoids d ys)) rows))))
      | Mat xrows \<Rightarrow>
          (case y of
             Some (Mat rows) \<Rightarrow>
               (let ds = map np_diff xrows
                in if int (ncols ds) \<noteq> int (ncols rows) - 1 then Inl ValueError
                   else bind (broadcast_rows ds rows) (\<lambda>pairs.
                          Inr (Mat (map (\<lambda>(d, ys). Fin 0 # np_cumsum (trapezoids d ys)) pairs))))
           | _ \<Rightarrow> Inl ValueError))"

text \<open>
  The assignment \<^verbatim>\<open>a, _ = arr\<close> iterates the array along its first axis: it succeeds
  only on exactly two items and raises ValueError otherwise. The items of a
  one-dimensional array are scalars, those of a two-dimensional array are its rows.
\<close>

definition unpack2 :: "ndarray \<Rightarrow> exn + (pyval \<times> pyval)" where
  "unpack2 arr =
     (case arr of
        Vec xs \<Rightarrow> (case xs of [a, b] \<Rightarrow> Inr (Scalar a, Scalar b) | _ \<Rightarrow> Inl ValueError)
      | Mat rows \<Rightarrow> (case rows of [r, s] \<Rightarrow> Inr (Array r, Array s) | _ \<Rightarrow> Inl ValueError))"

text \<open>Unary minus: \<^verbatim>\<open>-None\<close> is a TypeError.\<close>

definition np_negative :: "ndarray option \<Rightarrow> exn + ndarray option" where
  "np_negative v =
     (case v of
        None \<Rightarrow> Inl TypeError
      | Some (Vec xs) \<Rightarrow> Inr (Some (Vec (map fneg xs)))
      | Some (Mat rows) \<Rightarrow> Inr (Some (Mat (map (map fneg) rows))))"

text \<open>
  Boolean results of elementwise comparisons: a scalar or an array. \<^verbatim>\<open>v < c\<close> raises
  TypeError when an operand is \<^verbatim>\<open>None\<close> (an empty array has no element to compare and
  yields an empty result); \<^verbatim>\<open>|\<close> broadcasts a scalar or a one-element array and
  raises ValueError on other length mismatches.
\<close>

datatype bools = BScalar bool | BArray "bool list"

definition np_less :: "pyval \<Rightarrow> f64 option \<Rightarrow> exn + bools" where
  "np_less v c =
     (case v of
        PyNone \<Rightarrow> Inl TypeError
      | Scalar x \<Rightarrow> (case c of None \<Rightarrow> Inl TypeError | Some k \<Rightarrow> Inr (BScalar (flt x k)))
      | Array xs \<Rightarrow>
          (case c of
             None \<Rightarrow> (if xs = [] then Inr (BArray []) else Inl TypeError)
           | Some k \<Rightarrow> Inr (BArray (map (\<lambda>x. flt x k) xs))))"

fun np_or :: "bools \<Rightarrow> bools \<Rightarrow> exn + bools" where
  "np_or (BScalar a) (BScalar b) = Inr (BScalar (a \<or> b))"
| "np_or (BScalar a) (BArray bs) = Inr (BArray (map (\<lambda>b. a \<or> b) bs))"
| "np_or (BArray as) (BScalar b) = Inr (BArray (map (\<lambda>a. a \<or> b) as))"
| "np_or (BArray as) (BArray bs) =
     (if length as = length bs then Inr (BArray (map (\<lambda>(a, b). a \<or> b) (zip as bs)))
      else if length as = 1 then Inr (BArray (map (\<lambda>b. hd as \<or> b) bs))
      else if length bs = 1 then Inr (BArray (map (\<lambda>a. a \<or> hd bs) as))
      else Inl ValueError)"

fun np_any :: "bools \<Rightarrow> bool" where
  "np_any (BScalar b) = b"
| "np_any (BArray bs) = list_ex (\<lambda>b. b) bs"

section \<open>SOHCalculator\<close>

text \<open>
  \<^verbatim>\<open>self.config\<close> is whatever the constructor was given. The annotated type,
  \<^verbatim>\<open>ConfigHandler\<close>, has no \<^verbatim>\<open>get\<close> method, so \<^verbatim>\<open>self.config.get(...)\<close> raises
  AttributeError on it; a dictionary answers \<^verbatim>\<open>get\<close> with the stored value or
  \<^verbatim>\<open>None\<close>. The three keys the calculator reads are the fields of \<open>settings\<close>.
\<close>

record settings =
  voltage_window :: "(f64 \<times> f64) option"
  cutoff_charge :: "f64 option"
  cutoff_discharge :: "f64 option"

datatype config_obj = ConfigHandler | ConfigDict settings

definition config_get :: "config_obj \<Rightarrow> (settings \<Rightarrow> 'a option) \<Rightarrow> exn + 'a option" where
  "config_get cfg key =
     (case cfg of ConfigHandler \<Rightarrow> Inl AttributeError | ConfigDict d \<Rightarrow> Inr (key d))"

text \<open>
  A DataFrame, as far as the calculator reads it: what \<^verbatim>\<open>df[label].values\<close> yields for
  each label. The label is missing (KeyError), or it selects a single column (a
  one-dimensional array), or it selects several (a two-dimensional array).
\<close>

type_synonym dataframe = "string \<Rightarrow> ndarray option"

definition column :: "dataframe \<Rightarrow> string \<Rightarrow> exn + ndarray" where
  "column df name = (case df name of None \<Rightarrow> Inl KeyError | Some arr \<Rightarrow> Inr arr)"

text \<open>
  \<^verbatim>\<open>apply_voltage_window\<close>: keeps the samples strictly inside the window and replaces
  the others by NaN, whatever the shape; any exception is logged and \<^verbatim>\<open>None\<close> is
  returned.
\<close>

definition window :: "f64 \<Rightarrow> f64 \<Rightarrow> f64 \<Rightarrow> f64" where
  "window lo hi x = (if fgt x lo \<and> flt x hi then x else NaN)"

definition apply_voltage_window :: "config_obj \<Rightarrow> ndarray \<Rightarrow> ndarray \<Rightarrow> ndarray option" where
  "apply_voltage_window cfg data time =
     (case bind (config_get cfg voltage_window) (\<lambda>vw.
             case vw of
               None \<Rightarrow> Inl TypeError
             | Some (lo, hi) \<Rightarrow>
                 Inr (case data of
                        Vec xs \<Rightarrow> Vec (map (window lo hi) xs)
                      | Mat rows \<Rightarrow> Mat (map (map (window lo hi)) rows)))
      of Inl e \<Rightarrow> None | Inr v \<Rightarrow> Some v)"

text \<open>
  \<^verbatim>\<open>integrate_charge_discharge\<close>: each \<^verbatim>\<open>cumtrapz\<close> result is unpacked into two names,
  \<^verbatim>\<open>charge, _ = ...\<close> and \<^verbatim>\<open>discharge, _ = ...\<close>; any exception is logged and
  \<^verbatim>\<open>(None, None)\<close> is returned.
\<close>

definition integrate_charge_discharge :: "ndarray option \<Rightarrow> ndarray \<Rightarrow> pyval \<times> pyval" where
  "integrate_charge_discharge data time =
     (case bind (cumtrapz data time) (\<lambda>c.
           bind (unpack2 c) (\<lambda>(charge, uu).
           bind (np_negative data) (\<lambda>neg_data.
           bind (cumtrapz neg_data time) (\<lambda>d.
           bind (unpack2 d) (\<lambda>(discharge, uu).
             Inr (charge, discharge))))))
      of Inl e \<Rightarrow> (PyNone, PyNone) | Inr r \<Rightarrow> r)"

text \<open>
  \<^verbatim>\<open>validate_cutoff_conditions\<close>: false when any integrated value is below its
  cutoff, and false when anything raises.
\<close>

definition validate_cutoff_conditions :: "config_obj \<Rightarrow> pyval \<Rightarrow> pyval \<Rightarrow> bool" where
  "validate_cutoff_conditions cfg charge discharge =
     (case bind (config_get cfg cutoff_charge) (\<lambda>cc.
           bind (config_get cfg cutoff_discharge) (\<lambda>cd.
           bind (np_less charge cc) (\<lambda>below_c.
           bind (np_less discharge cd) (\<lambda>below_d.
           bind (np_or below_c below_d) (\<lambda>below.
             Inr (if np_any below then False else True))))))
      of Inl e \<Rightarrow> False | Inr ok \<Rightarrow> ok)"

text \<open>
  The two reductions have the same body:
  \<^verbatim>\<open>np.mean((charge[-1] - charge[0]) / (discharge[-1] - discharge[0]))\<close> inside
  \<^verbatim>\<open>try\<close>, with \<^verbatim>\<open>return None\<close> in the handler. The arguments are what
  \<^verbatim>\<open>integrate_charge_discharge\<close> can return: \<^verbatim>\<open>None\<close>, a scalar or a one-dimensional
  array. The mean of a scalar is the scalar.
\<close>

definition calculate_capacity_soh_velocity_threshold :: "pyval \<Rightarrow> pyval \<Rightarrow> pyval" where
  "calculate_capacity_soh_velocity_threshold charge discharge =
     (case bind (subscript charge (- 1)) (\<lambda>c_last.
           bind (subscript charge 0) (\<lambda>c_first.
           bind (subscript discharge (- 1)) (\<lambda>d_last.
           bind (subscript discharge 0) (\<lambda>d_first.
             Inr (fdiv64 (fsub64 c_last c_first) (fsub64 d_last d_first))))))
      of Inl e \<Rightarrow> PyNone | Inr capacity_soh \<Rightarrow> Scalar capacity_soh)"

definition calculate_energy_soh_flow_theory :: "pyval \<Rightarrow> pyval \<Rightarrow> pyval" where
  "calculate_energy_soh_flow_theory charge discharge =
     (case bind (subscript charge (- 1)) (\<lambda>c_last.
           bind (subscript charge 0) (\<lambda>c_first.
           bind (subscript discharge (- 1)) (\<lambda>d_last.
           bind (subscript discharge 0) (\<lambda>d_first.
             Inr (fdiv64 (fsub64 c_last c_first) (fsub64 d_last d_first))))))
      of Inl e \<Rightarrow> PyNone | Inr energy_soh \<Rightarrow> Scalar energy_soh)"

text \<open>
  \<^verbatim>\<open>calculate_capacity_soh\<close> and \<^verbatim>\<open>calculate_energy_soh\<close>: the pipeline inside
  \<^verbatim>\<open>try\<close>; the handler \<^verbatim>\<open>except Exception\<close> logs and returns \<^verbatim>\<open>None\<close>. The result
  is \<open>Inr\<close> of the returned value; \<open>Inl\<close> would be an exception reaching the caller.
\<close>

definition calculate_capacity_soh :: "config_obj \<Rightarrow> dataframe \<Rightarrow> exn + pyval" where
  "calculate_capacity_soh cfg capacity_data =
     (case bind (column capacity_data ''capacity'') (\<lambda>capacity.
           bind (column capacity_data ''time'') (\<lambda>time.
             let capacity' = apply_voltage_window cfg capacity time;
                 (charge, discharge) = integrate_charge_discharge capacity' time
             in if \<not> validate_cutoff_conditions cfg charge discharge then Inr PyNone
                else Inr (calculate_capacity_soh_velocity_threshold charge discharge)))
      of Inl e \<Rightarrow> Inr PyNone | Inr capacity_soh \<Rightarrow> Inr capacity_soh)"

definition calculate_energy_soh :: "config_obj \<Rightarrow> dataframe \<Rightarrow> exn + pyval" where
  "calculate_energy_soh cfg energy_data =
     (case bind (column energy_data ''energy'') (\<lambda>energy.
           bind (column energy_data ''time'') (\<lambda>time.
             let energy' = apply_voltage_window cfg energy time;
                 (charge, discharge) = integrate_charge_discharge energy' time
             in if \<not> validate_cutoff_conditions cfg charge discharge then Inr PyNone
                else Inr (calculate_energy_soh_flow_theory charge discharge)))
      of Inl e \<Rightarrow> Inr PyNone | Inr energy_soh \<Rightarrow> Inr energy_soh)"

section \<open>NumPy routines used by DVAnalyzer\<close>

text \<open>
  \<^verbatim>\<open>np.gradient(f)\<close> with the default unit spacing and first-order edges: it raises
  ValueError on fewer than two samples; the interior is \<open>(f[i+1] - f[i-1]) / 2.0\<close> and
  the two ends are the one-sided differences \<open>(f[1] - f[0]) / 1.0\<close> and
  \<open>(f[-1] - f[-2]) / 1.0\<close>.
\<close>

definition np_gradient :: "f64 list \<Rightarrow> exn + f64 list" where
  "np_gradient f =
     (let n = length f
      in if n < 2 then Inl ValueError
         else Inr ([fdiv64 (fsub64 (f ! 1) (f ! 0)) (Fin 1)]
                 @ map (\<lambda>i. fdiv64 (fsub64 (f ! (i + 1)) (f ! (i - 1))) (Fin 2)) [1..<n - 1]
                 @ [fdiv64 (fsub64 (f ! (n - 1)) (f ! (n - 2))) (Fin 1)]))"

text \<open>
  Elementwise division of two arrays: equal lengths pair up, a one-element array is
  broadcast, any other mismatch raises ValueError. Division by zero does not raise.
\<close>

definition np_divide :: "f64 list \<Rightarrow> f64 list \<Rightarrow> exn + f64 list" where
  "np_divide as bs =
     (if length as = length bs then Inr (map (\<lambda>(a, b). fdiv64 a b) (zip as bs))
      else if length as = 1 then Inr (map (\<lambda>b. fdiv64 (hd as) b) bs)
      else if length bs = 1 then Inr (map (\<lambda>a. fdiv64 a (hd bs)) as)
      else Inl ValueError)"

text \<open>\<^verbatim>\<open>np.ones(n)\<close>: a negative length raises ValueError.\<close>

definition np_ones :: "int \<Rightarrow> exn + f64 list" where
  "np_ones n = (if n < 0 then Inl ValueError else Inr (replicate (nat n) (Fin 1)))"

text \<open>
  The dot product accumulates from zero, left to right. \<^verbatim>\<open>np.correlate(a, v, 'valid')\<close>
  for \<open>len(a) \<ge> len(v) \<ge> 1\<close> slides \<open>v\<close> along \<open>a\<close>, one output per full overlap.
\<close>

definition dot :: "f64 list \<Rightarrow> f64 list \<Rightarrow> f64" where
  "dot xs ys = foldl (\<lambda>acc (x, y). fadd acc (fmul x y)) (Fin 0) (zip xs ys)"

definition correlate_valid :: "f64 list \<Rightarrow> f64 list \<Rightarrow> f64 list" where
  "correlate_valid a v =
     map (\<lambda>k. dot (take (length v) (drop k a)) v) [0..<length a - length v + 1]"

text \<open>
  \<^verbatim>\<open>np.convolve(a, v, mode='valid')\<close>: the longer argument comes first (the two are
  swapped when \<open>v\<close> is longer), an empty argument raises ValueError, and the result is
  the correlation with the reversed second argument.
\<close>

definition np_convolve_valid :: "f64 list \<Rightarrow> f64 list \<Rightarrow> exn + f64 list" where
  "np_convolve_valid a v =
     (let (a', v') = (if length v > length a then (v, a) else (a, v))
      in if a' = [] then Inl ValueError
         else if v' = [] then Inl ValueError
         else Inr (correlate_valid a' (rev v')))"

section \<open>DVAnalyzer\<close>

text \<open>The module-level \<^verbatim>\<open>Config\<close> object and its values.\<close>

record Config =
  dv_window_size :: int
  dv_threshold :: f64
  lam_pe_threshold :: f64
  lam_ne_threshold :: f64
  lli_threshold :: f64
  velocity_threshold :: f64
  capacity_weight :: f64
  energy_weight :: f64
  sampling_rate :: int

definition config :: Config where
  "config = \<lparr> dv_window_size = 5,
              dv_threshold = Fin (5 / 1000),
              lam_pe_threshold = Fin (5 / 100),
              lam_ne_threshold = Fin (- (5 / 100)),
              lli_threshold = Fin (- (1 / 10)),
              velocity_threshold = Fin (2 / 10),
              capacity_weight = Fin (6 / 10),
              energy_weight = Fin (4 / 10),
              sampling_rate = 10 \<rparr>"

text \<open>
  The analyzer object. The private methods \<^verbatim>\<open>_validate_input\<close>, \<^verbatim>\<open>_smooth\<close>,
  \<^verbatim>\<open>_calculate_dv\<close>, \<^verbatim>\<open>_detect_lam_pe\<close>, \<^verbatim>\<open>_detect_lam_ne\<close>, \<^verbatim>\<open>_detect_lli\<close> and
  \<^verbatim>\<open>_identify_degradation_modes\<close> and the attributes \<^verbatim>\<open>dv_curve_\<close> and
  \<^verbatim>\<open>degradation_modes_\<close> are named here without the underscore.
\<close>

record DVAnalyzer =
  voltage :: "f64 list"
  current :: "f64 list"
  soc :: "f64 list"
  dv_curve :: "f64 list option"
  degradation_modes :: "(string \<times> nat list) list option"

text \<open>
  \<^verbatim>\<open>_validate_input\<close>: three checks in order, each raising InvalidInputError:
  the lengths, \<^verbatim>\<open>np.any(current <= 0)\<close>, and \<^verbatim>\<open>not np.all(np.diff(soc) >= 0)\<close>.
\<close>

definition validate_input :: "DVAnalyzer \<Rightarrow> exn + unit" where
  "validate_input self =
     (if length (voltage self) \<noteq> length (current self)
         \<or> length (voltage self) \<noteq> length (soc self)
      then Inl InvalidInputError
      else if list_ex (\<lambda>c. fle c (Fin 0)) (current self) then Inl InvalidInputError
      else if \<not> list_all (\<lambda>d. fge d (Fin 0)) (np_diff (soc self)) then Inl InvalidInputError
      else Inr ())"

text \<open>\<^verbatim>\<open>__init__\<close>: stores the arrays, clears the results, validates.\<close>

definition init :: "f64 list \<Rightarrow> f64 list \<Rightarrow> f64 list \<Rightarrow> exn + DVAnalyzer" where
  "init v c s =
     (let self = \<lparr> voltage = v, current = c, soc = s,
                   dv_curve = None, degradation_modes = None \<rparr>
      in bind (validate_input self) (\<lambda>u. Inr self))"

text \<open>
  \<^verbatim>\<open>_smooth\<close>: \<^verbatim>\<open>window = np.ones(window_size) / window_size\<close>, then
  \<^verbatim>\<open>np.convolve(data, window, mode='valid')\<close>. The method has no check of its own.
\<close>

definition smooth :: "f64 list \<Rightarrow> int \<Rightarrow> exn + f64 list" where
  "smooth data window_size =
     bind (np_ones window_size) (\<lambda>ones.
       let window = map (\<lambda>x. fdiv x (Fin (real_of_int window_size))) ones
       in np_convolve_valid data window)"

text \<open>
  \<^verbatim>\<open>_calculate_dv\<close>: the raw curve \<^verbatim>\<open>np.gradient(voltage) / np.gradient(soc)\<close>, then
  smoothed with the configured window.
\<close>

definition raw_dv :: "DVAnalyzer \<Rightarrow> exn + f64 list" where
  "raw_dv self =
     bind (np_gradient (voltage self)) (\<lambda>gv.
     bind (np_gradient (soc self)) (\<lambda>gs.
       np_divide gv gs))"

definition calculate_dv :: "DVAnalyzer \<Rightarrow> exn + f64 list" where
  "calculate_dv self = bind (raw_dv self) (\<lambda>dv. smooth dv (dv_window_size config))"

text \<open>
  The peak finder \<^verbatim>\<open>indices(y, thres=..., min_dist=...)\<close> is imported from the
  third-party package \<^verbatim>\<open>peakutils\<close>; the repository holds no code of it. The
  detectors take it as a parameter: a function of the curve, the threshold and the
  minimum distance that returns peak positions or raises.
\<close>

type_synonym peak_finder = "f64 list \<Rightarrow> f64 \<Rightarrow> int \<Rightarrow> exn + nat list"

definition detect_lam_pe :: "peak_finder \<Rightarrow> f64 list \<Rightarrow> exn + nat list" where
  "detect_lam_pe indices dv = indices dv (lam_pe_threshold config) (dv_window_size config)"

definition detect_lam_ne :: "peak_finder \<Rightarrow> f64 list \<Rightarrow> exn + nat list" where
  "detect_lam_ne indices dv =
     indices (map fneg dv) (lam_ne_threshold config) (dv_window_size config)"

definition detect_lli :: "peak_finder \<Rightarrow> f64 list \<Rightarrow> exn + nat list" where
  "detect_lli indices dv = indices dv (lli_threshold config) (dv_window_size config)"

definition identify_degradation_modes :: "peak_finder \<Rightarrow> DVAnalyzer \<Rightarrow> exn + DVAnalyzer" where
  "identify_degradation_modes indices self =
     (case dv_curve self of
        None \<Rightarrow> Inl TypeError
      | Some dv \<Rightarrow>
          bind (detect_lam_pe indices dv) (\<lambda>pe.
          bind (detect_lam_ne indices dv) (\<lambda>ne.
          bind (detect_lli indices dv) (\<lambda>lli.
            Inr (self\<lparr> degradation_modes :=
                   Some [(''lam_pe'', pe), (''lam_ne'', ne), (''lli'', lli)] \<rparr>)))))"

text \<open>
  \<^verbatim>\<open>calculate_dv_curve\<close>: stores the smoothed curve, classifies, returns the curve
  (here together with the updated object).
\<close>

definition calculate_dv_curve :: "peak_finder \<Rightarrow> DVAnalyzer \<Rightarrow> exn + (DVAnalyzer \<times> f64 list)" where
  "calculate_dv_curve indices self =
     bind (calculate_dv self) (\<lambda>dv.
     bind (identify_degradation_modes indices (self\<lparr> dv_curve := Some dv \<rparr>)) (\<lambda>self'.
       Inr (self', dv)))"

text \<open>
  The analysis as \<^verbatim>\<open>main\<close> runs it: construct the analyzer from the three arrays, then
  \<^verbatim>\<open>calculate_dv_curve\<close>. An exception of the constructor ends it.
\<close>

definition run_analysis ::
  "peak_finder \<Rightarrow> f64 list \<Rightarrow> f64 list \<Rightarrow> f64 list \<Rightarrow> exn + (DVAnalyzer \<times> f64 list)" where
  "run_analysis indices v c s = bind (init v c s) (calculate_dv_curve indices)"

section \<open>The peak finder, as the specification describes it\<close>

text \<open>
  Modelled from the spec: the peak finder \<^verbatim>\<open>indices\<close> is imported from the third-party
  package \<^verbatim>\<open>peakutils\<close>, whose code is not among the repository's sources. Spec 4.2,
  step 4: "scan the curve for local maxima whose prominence exceeds a mode-specific
  threshold"; lamination-PE: "peaks of the curve itself above \<open>+lam_pe_threshold\<close>". A
  position is a candidate peak when it is interior, strictly higher than both
  neighbours, and strictly above the threshold.
\<close>

definition is_peak :: "f64 list \<Rightarrow> f64 \<Rightarrow> nat \<Rightarrow> bool" where
  "is_peak y thres i \<longleftrightarrow>
     0 < i \<and> i + 1 < length y
     \<and> flt (y ! (i - 1)) (y ! i) \<and> flt (y ! (i + 1)) (y ! i) \<and> flt thres (y ! i)"

text \<open>
  Modelled from the spec: the candidate peaks of a curve, in increasing position (the
  \<^verbatim>\<open>peakutils\<close> finder is not among the repository's sources). Spec 9: "a single pass
  tracking local maxima above threshold".
\<close>

definition candidates :: "f64 list \<Rightarrow> f64 \<Rightarrow> nat list" where
  "candidates y thres = filter (is_peak y thres) [0..<length y]"

text \<open>
  Modelled from the spec: the non-maximum suppression of the absent finder. Spec 9:
  "collapsing neighbors within the minimum-distance window by magnitude comparison";
  spec 4.2: "whose horizontal separation is at least the configured minimum distance",
  "retain the higher-magnitude peak, discard the other". The scan goes through the
  candidates from left to right and keeps the retained peaks, the last one first: a
  candidate closer than \<open>d\<close> to the last retained peak replaces it when it is strictly
  higher and is dropped otherwise; a candidate at least \<open>d\<close> away is retained.
\<close>

fun collapse :: "f64 list \<Rightarrow> nat \<Rightarrow> nat list \<Rightarrow> nat list \<Rightarrow> nat list" where
  "collapse y d kept [] = rev kept"
| "collapse y d [] (c # cs) = collapse y d [c] cs"
| "collapse y d (r # kept) (c # cs) =
     (if c - r < d
      then (if flt (y ! r) (y ! c) then collapse y d (c # kept) cs
            else collapse y d (r # kept) cs)
      else collapse y d (c # r # kept) cs)"

text \<open>
  Modelled from the spec: the finder as the specification describes it, in the place of
  the absent \<^verbatim>\<open>peakutils\<close> routine; it never raises.
\<close>

definition spec_indices :: peak_finder where
  "spec_indices y thres min_dist = Inr (collapse y (nat min_dist) [] (candidates y thres))"

section \<open>The smoothing window in words\<close>


section \<open>The difference scheme in words\<close>

text \<open>
  The numerical gradient the specification describes, "central differences at interior
  points, one-sided at the boundaries", at position \<open>i\<close> of a curve sampled at unit
  spacing: the difference of the two neighbours over their distance 2 inside, and the
  difference to the single neighbour over the distance 1 at either end.
\<close>

definition difference_quotient :: "f64 list \<Rightarrow> nat \<Rightarrow> f64" where
  "difference_quotient f i =
     (if i = 0 then fdiv64 (fsub64 (f ! 1) (f ! 0)) (Fin 1)
      else if i + 1 = length f then fdiv64 (fsub64 (f ! i) (f ! (i - 1))) (Fin 1)
      else fdiv64 (fsub64 (f ! (i + 1)) (f ! (i - 1))) (Fin 2))"

section \<open>Facts about samples and subscripts\<close>



lemma subscript_last: "xs \<noteq> [] \<Longrightarrow> subscript (Array xs) (- 1) = Inr (last xs)"
  by (cases xs rule: rev_cases) (simp_all add: subscript_def nth_append)

lemma subscript_first: "xs \<noteq> [] \<Longrightarrow> subscript (Array xs) 0 = Inr (hd xs)"
  by (cases xs) (simp_all add: subscript_def)

section \<open>Facts about rounding\<close>

lemma floor_log2_iff:
  assumes "0 < x"
  shows "\<lfloor>log 2 x\<rfloor> = k \<longleftrightarrow> 2 powi k \<le> x \<and> x < 2 powi (k + 1)"
proof -
  have a: "(2::real) powr real_of_int k = 2 powi k"
    by (rule powr_real_of_int') simp_all
  have b: "(2::real) powr real_of_int (k + 1) = 2 powi (k + 1)"
    by (rule powr_real_of_int') simp_all
  from floor_log_eq_powr_iff [OF assms, of 2 k] show ?thesis
    unfolding a b by simp
qed

lemma quantum_scaled:
  fixes P :: real and k :: int
  defines "P \<equiv> 2 ^ 1074"
  shows "2 powi (int i - 1074) * P = 2 ^ i" and "0 < P"
proof -
  have "(2::real) powi 1074 = P" by (simp add: P_def)
  moreover have "(2::real) powi (int i - 1074) = 2 powi (int i) / 2 powi 1074"
    by (rule power_int_diff) simp
  moreover show "0 < P" by (simp add: P_def)
  ultimately show "2 powi (int i - 1074) * P = 2 ^ i"
    by (simp only: power_int_of_nat) simp
qed

lemma quantum_subnormal:
  assumes "\<bar>x\<bar> < 2 powi (- 1022)"
  shows "quantum x = 2 powi (- 1074)"
proof -
  define P :: real where "P = 2 ^ 1074"
  note sc = quantum_scaled [folded P_def]
  define k where "k = \<lfloor>\<bar>x\<bar> * P\<rfloor>"
  have q: "quantum x = 2 powi (max (bitlen k - 1127) (- 1074))"
    by (simp only: quantum_def k_def P_def)
  from assms sc(2) have "\<bar>x\<bar> * P < 2 powi (int 52 - 1074) * P"
    by (intro mult_strict_right_mono) simp_all
  then have "\<bar>x\<bar> * P < real_of_int (2 ^ 52)"
    by (simp only: sc(1)) simp
  then have "k < 2 ^ 52"
    unfolding k_def by (simp only: floor_less_iff)
  then have "bitlen k \<le> 52"
    by (simp add: bitlen_le_iff_power)
  then show ?thesis
    by (simp add: q max_def)
qed

lemma quantum_normal:
  assumes "2 powi e \<le> \<bar>x\<bar>" "\<bar>x\<bar> < 2 powi (e + 1)" "- 1022 \<le> e"
  shows "quantum x = 2 powi (e - 52)"
proof -
  define P :: real where "P = 2 ^ 1074"
  note sc = quantum_scaled [folded P_def]
  define k where "k = \<lfloor>\<bar>x\<bar> * P\<rfloor>"
  have q: "quantum x = 2 powi (max (bitlen k - 1127) (- 1074))"
    by (simp only: quantum_def k_def P_def)
  define j where "j = nat (e + 1074)"
  from assms(3) have e: "e = int j - 1074" and e1: "e + 1 = int (Suc j) - 1074"
    by (simp_all add: j_def)
  from assms(1) sc(2) have "2 powi e * P \<le> \<bar>x\<bar> * P"
    by (intro mult_right_mono) simp_all
  then have "real_of_int (2 ^ j) \<le> \<bar>x\<bar> * P"
    unfolding e by (simp only: sc(1)) simp
  then have lo: "2 ^ j \<le> k"
    unfolding k_def by (simp only: le_floor_iff)
  from assms(2) sc(2) have "\<bar>x\<bar> * P < 2 powi (e + 1) * P"
    by (intro mult_strict_right_mono) simp_all
  then have "\<bar>x\<bar> * P < real_of_int (2 ^ Suc j)"
    unfolding e1 by (simp only: sc(1)) simp
  then have hi: "k < 2 ^ Suc j"
    unfolding k_def by (simp only: floor_less_iff)
  from hi have "bitlen k \<le> int (Suc j)"
    unfolding bitlen_le_iff_power nat_int by simp
  moreover from lo have "int (Suc j) \<le> bitlen k"
    unfolding bitlen_ge_iff_power nat_int by simp
  ultimately have "bitlen k = int j + 1" by simp
  with assms(3) show ?thesis
    by (simp add: q e max_def)
qed

lemma quantum_cases:
  obtains (sub) "\<bar>x\<bar> < 2 powi (- 1022)" "quantum x = 2 powi (- 1074)"
  | (norm) e where "- 1022 \<le> e" "2 powi e \<le> \<bar>x\<bar>" "\<bar>x\<bar> < 2 powi (e + 1)"
      "quantum x = 2 powi (e - 52)"
proof (cases "\<bar>x\<bar> < 2 powi (- 1022)")
  case True
  then show ?thesis using sub quantum_subnormal by blast
next
  case False
  then have ge: "2 powi (- 1022) \<le> \<bar>x\<bar>" by simp
  have "0 < (2::real) powi (- 1022)" by simp
  with ge have pos: "0 < \<bar>x\<bar>" by linarith
  define e where "e = \<lfloor>log 2 \<bar>x\<bar>\<rfloor>"
  from floor_log2_iff [OF pos, of e] have b: "2 powi e \<le> \<bar>x\<bar>" "\<bar>x\<bar> < 2 powi (e + 1)"
    by (simp_all add: e_def)
  have "- 1022 \<le> e"
  proof (rule ccontr)
    assume "\<not> - 1022 \<le> e"
    then have "e + 1 \<le> - 1022" by simp
    then have "(2::real) powi (e + 1) \<le> 2 powi (- 1022)"
      by (intro power_int_increasing) simp_all
    with b(2) ge show False by linarith
  qed
  with b show ?thesis using norm quantum_normal by blast
qed

lemma quantum_pos: "0 < quantum x"
  by (simp add: quantum_def)

lemma quantum_minus: "quantum (- x) = quantum x"
  by (simp add: quantum_def)

lemma round_half_even_int: "round_half_even (of_int n) = n"
  by (simp add: round_half_even_def)

lemma round_half_even_ge: "of_int n \<le> m \<Longrightarrow> n \<le> round_half_even m"
proof -
  assume "of_int n \<le> m"
  then have "n \<le> \<lfloor>m\<rfloor>" by (simp add: le_floor_iff)
  then show ?thesis by (auto simp: round_half_even_def Let_def)
qed

lemma round_half_even_le: "m \<le> of_int n \<Longrightarrow> round_half_even m \<le> n"
proof -
  assume m: "m \<le> of_int n"
  show ?thesis
  proof (cases "m = of_int n")
    case True
    then show ?thesis by (simp add: round_half_even_int)
  next
    case False
    with m have "m < of_int n" by simp
    then have "\<lfloor>m\<rfloor> < n" by (simp add: floor_less_iff)
    then show ?thesis by (auto simp: round_half_even_def Let_def)
  qed
qed

text \<open>Towards an even integer the tie counts: the rounding reaches \<open>n\<close> from \<open>n - 1/2\<close> on.\<close>

lemma round_half_even_ge_even:
  assumes "even n"
  shows "n \<le> round_half_even m \<longleftrightarrow> of_int n - 1 / 2 \<le> m"
proof (cases "of_int n \<le> m")
  case True
  then show ?thesis using round_half_even_ge [of n m] by simp
next
  case False
  then have lt: "m < of_int n" by simp
  show ?thesis
  proof (cases "of_int (n - 1) \<le> m")
    case True
    with lt have fl: "\<lfloor>m\<rfloor> = n - 1" by (simp add: floor_unique)
    from assms have "odd (n - 1)" by simp
    with fl show ?thesis
      by (auto simp: round_half_even_def Let_def)
  next
    case False
    then have "m \<le> of_int (n - 1)" by simp
    from round_half_even_le [OF this] False show ?thesis by auto
  qed
qed

lemma round64_exact:
  assumes "\<bar>x\<bar> / quantum x \<in> \<int>" and "\<bar>x\<bar> < 2 ^ 1024"
  shows "round64 x = Fin x"
proof -
  from assms(1) obtain n where n: "\<bar>x\<bar> / quantum x = of_int n"
    by (auto elim: Ints_cases)
  have q: "quantum x \<noteq> 0" using quantum_pos [of x] by simp
  from n q have r: "of_int n * quantum x = \<bar>x\<bar>"
    by (simp add: field_simps)
  have "sgn x * \<bar>x\<bar> = x" by (simp add: sgn_real_def)
  with assms(2) show ?thesis
    unfolding round64_def Let_def n round_half_even_int r by simp
qed

lemma representable_normal:
  assumes "2 powi e \<le> \<bar>x\<bar>" "\<bar>x\<bar> < 2 powi (e + 1)" "- 1022 \<le> e" "e \<le> 1023"
    and "\<bar>x\<bar> / 2 powi (e - 52) \<in> \<int>"
  shows "representable x"
  unfolding representable_def
proof (rule round64_exact)
  show "\<bar>x\<bar> / quantum x \<in> \<int>"
    using assms(5) by (simp only: quantum_normal [OF assms(1,2,3)])
  have "(2::real) powi (e + 1) \<le> 2 powi 1024"
    using assms(4) by (intro power_int_increasing) simp_all
  with assms(2) show "\<bar>x\<bar> < 2 ^ 1024" by simp
qed

lemma representable_zero: "representable 0"
  unfolding representable_def by (rule round64_exact) simp_all

lemma round64_minus: "round64 (- x) = fneg (round64 x)"
proof (cases "x = 0")
  case True
  have "round64 0 = Fin 0" by (rule round64_exact) simp_all
  with True show ?thesis by simp
next
  case False
  then show ?thesis
    by (auto simp: round64_def Let_def quantum_minus sgn_real_def)
qed

lemma representable_minus: "representable (- x) \<longleftrightarrow> representable x"
  unfolding representable_def round64_minus by (cases "round64 x") auto

text \<open>Every representable number is a multiple of the smallest quantum.\<close>

lemma representable_grid:
  assumes "representable x"
  shows "\<exists>k::int. x = of_int k * 2 powi (- 1074)"
proof -
  define n where "n = round_half_even (\<bar>x\<bar> / quantum x)"
  from assms have "Fin (sgn x * (of_int n * quantum x)) = Fin x"
    unfolding representable_def round64_def Let_def n_def by (auto split: if_splits)
  then have x: "x = sgn x * (of_int n * quantum x)" by simp
  have "\<exists>j. - 1074 \<le> j \<and> quantum x = 2 powi j"
  proof (rule quantum_cases [of x])
    assume "quantum x = 2 powi (- 1074)"
    then show ?thesis by (intro exI [of _ "- 1074"]) simp
  next
    fix e :: int
    assume "- 1022 \<le> e" "quantum x = 2 powi (e - 52)"
    then show ?thesis by (intro exI [of _ "e - 52"]) simp
  qed
  then obtain j :: int where j: "- 1074 \<le> j" "quantum x = 2 powi j"
    by blast
  define i where "i = nat (j + 1074)"
  from j(1) have ji: "j = int i + (- 1074)" by (simp add: i_def)
  have "(2::real) powi (int i + (- 1074)) = 2 powi (int i) * 2 powi (- 1074)"
    by (rule power_int_add) simp
  then have q: "quantum x = 2 ^ i * 2 powi (- 1074)"
    unfolding j(2) ji by (simp only: power_int_of_nat)
  have "\<exists>s::int. sgn x = of_int s"
    by (cases "x < 0"; cases "x = 0") (auto simp: sgn_real_def intro: exI [of _ 1] exI [of _ "- 1"])
  then obtain s :: int where s: "sgn x = of_int s" by blast
  have "x = of_int (s * n * 2 ^ i) * 2 powi (- 1074)"
    by (subst x) (simp add: q s)
  then show ?thesis by blast
qed

lemma round64_nonzero:
  assumes "2 powi (- 1074) \<le> \<bar>z\<bar>"
  shows "round64 z \<noteq> Fin 0"
proof -
  have "0 < (2::real) powi (- 1074)" by simp
  with assms have z: "z \<noteq> 0" by auto
  have "quantum z \<le> \<bar>z\<bar>"
  proof (rule quantum_cases [of z])
    assume "quantum z = 2 powi (- 1074)"
    with assms show ?thesis by simp
  next
    fix e
    assume e: "2 powi e \<le> \<bar>z\<bar>" "quantum z = 2 powi (e - 52)"
    have "(2::real) powi (e - 52) \<le> 2 powi e"
      by (intro power_int_increasing) simp_all
    with e show ?thesis by simp
  qed
  then have "1 \<le> \<bar>z\<bar> / quantum z"
    using quantum_pos [of z] by (simp add: field_simps)
  from round_half_even_ge [of 1 "\<bar>z\<bar> / quantum z"] this
  have "1 \<le> round_half_even (\<bar>z\<bar> / quantum z)" by simp
  then have "0 < real_of_int (round_half_even (\<bar>z\<bar> / quantum z)) * quantum z"
    using quantum_pos [of z] by simp
  with z show ?thesis
    by (auto simp: round64_def Let_def sgn_real_def)
qed

lemma round64_difference_nonzero:
  assumes "representable x" "representable y" "x \<noteq> y"
  shows "round64 (x - y) \<noteq> Fin 0"
proof (rule round64_nonzero)
  from representable_grid [OF assms(1)] obtain k :: int where k: "x = of_int k * 2 powi (- 1074)"
    by blast
  from representable_grid [OF assms(2)] obtain l :: int where l: "y = of_int l * 2 powi (- 1074)"
    by blast
  define q :: real where "q = 2 powi (- 1074)"
  have q: "0 < q" by (simp add: q_def)
  from assms(3) k l have "k \<noteq> l" by auto
  then have "1 \<le> \<bar>k - l\<bar>" by simp
  then have "(1::real) \<le> of_int \<bar>k - l\<bar>" by (simp only: of_int_1_le_iff)
  then have "1 * q \<le> of_int \<bar>k - l\<bar> * q"
    using q by (intro mult_right_mono) simp_all
  moreover have "x - y = of_int (k - l) * q"
    unfolding k l q_def by (simp only: of_int_diff left_diff_distrib)
  then have "\<bar>x - y\<bar> = of_int \<bar>k - l\<bar> * q"
    using q by (simp only: abs_mult of_int_abs)
  ultimately show "2 powi (- 1074) \<le> \<bar>x - y\<bar>"
    unfolding q_def by (simp only: mult_1)
qed

lemma binade_scaled:
  fixes e :: int
  defines "Q \<equiv> (2::real) powi (e - 52)"
  shows "2 powi e = 2 ^ 52 * Q" and "2 powi (e + 1) = 2 ^ 53 * Q" and "0 < Q"
proof -
  have "(2::real) powi ((e - 52) + 52) = 2 powi (e - 52) * 2 powi 52"
    by (rule power_int_add) simp
  then show "2 powi e = 2 ^ 52 * Q" by (simp add: Q_def)
  have "(2::real) powi ((e - 52) + 53) = 2 powi (e - 52) * 2 powi 53"
    by (rule power_int_add) simp
  moreover have "(e - 52) + 53 = e + 1" by simp
  ultimately show "2 powi (e + 1) = 2 ^ 53 * Q" by (simp add: Q_def)
  show "0 < Q" by (simp add: Q_def)
qed

text \<open>Rounding overflows exactly from \<open>2^1024 - 2^970\<close> on.\<close>

lemma round64_finite_iff: "is_fin (round64 z) \<longleftrightarrow> \<bar>z\<bar> < 2 ^ 1024 - 2 ^ 970"
proof -
  define m where "m = \<bar>z\<bar> / quantum z"
  define r where "r = real_of_int (round_half_even m) * quantum z"
  have fin: "is_fin (round64 z) \<longleftrightarrow> r < 2 ^ 1024"
    by (simp add: round64_def Let_def r_def m_def)
  show ?thesis
  proof (rule quantum_cases [of z])
    assume sub: "\<bar>z\<bar> < 2 powi (- 1022)" and q: "quantum z = 2 powi (- 1074)"
    from binade_scaled [of "- 1022"] have s: "(2::real) powi (- 1022) = 2 ^ 52 * 2 powi (- 1074)"
      by simp
    have "m \<le> of_int (2 ^ 52)"
      using sub unfolding m_def q s by (simp add: field_simps)
    from round_half_even_le [OF this] have "real_of_int (round_half_even m) \<le> 2 ^ 52"
      by (metis of_int_le_iff of_int_numeral of_int_power)
    then have "r \<le> 2 ^ 52 * 2 powi (- 1074)"
      unfolding r_def q by (intro mult_right_mono) simp_all
    then have "r < 2 ^ 1024" by simp
    moreover from sub have "\<bar>z\<bar> < 2 ^ 1024 - 2 ^ 970" by simp
    ultimately show ?thesis by (simp add: fin)
  next
    fix e :: int
    assume e: "- 1022 \<le> e" and lo: "2 powi e \<le> \<bar>z\<bar>" and hi: "\<bar>z\<bar> < 2 powi (e + 1)"
      and q: "quantum z = 2 powi (e - 52)"
    define Q where "Q = (2::real) powi (e - 52)"
    note sc = binade_scaled [of e, folded Q_def]
    have qQ: "quantum z = Q" by (simp add: q Q_def)
    from lo hi sc have mlo: "of_int (2 ^ 52) \<le> m" and mhi: "m \<le> of_int (2 ^ 53)" and mhi': "m < 2 ^ 53"
      unfolding m_def qQ by (simp_all add: field_simps)
    from round_half_even_ge [OF mlo] have "(2::int) ^ 52 \<le> round_half_even m" .
    then have "real_of_int (2 ^ 52) \<le> real_of_int (round_half_even m)"
      by (simp only: of_int_le_iff)
    then have rlo: "2 ^ 52 * Q \<le> r"
      unfolding r_def qQ using sc(3) by (intro mult_right_mono) simp_all
    from round_half_even_le [OF mhi] have "round_half_even m \<le> (2::int) ^ 53" .
    then have "real_of_int (round_half_even m) \<le> real_of_int (2 ^ 53)"
      by (simp only: of_int_le_iff)
    then have rhi: "r \<le> 2 ^ 53 * Q"
      unfolding r_def qQ using sc(3) by (intro mult_right_mono) simp_all
    consider (small) "e \<le> 1022" | (top) "e = 1023" | (big) "1024 \<le> e" by linarith
    then show ?thesis
    proof cases
      case small
      then have "(2::real) powi (e + 1) \<le> 2 powi 1023"
        by (intro power_int_increasing) simp_all
      then have b: "(2::real) powi (e + 1) \<le> 2 ^ 1023" by simp
      with rhi sc(2) have "r < 2 ^ 1024" by simp
      moreover from hi b have "\<bar>z\<bar> < 2 ^ 1024 - 2 ^ 970" by simp
      ultimately show ?thesis by (simp add: fin)
    next
      case big
      then have "(2::real) powi 1024 \<le> 2 powi e"
        by (intro power_int_increasing) simp_all
      then have b: "(2::real) ^ 1024 \<le> 2 powi e" by simp
      with rlo sc(1) have "\<not> r < 2 ^ 1024" by simp
      moreover from lo b have "\<not> \<bar>z\<bar> < 2 ^ 1024 - 2 ^ 970" by simp
      ultimately show ?thesis by (simp add: fin)
    next
      case top
      then have Q: "Q = 2 ^ 971" by (simp add: Q_def)
      have "r < 2 ^ 1024 \<longleftrightarrow> real_of_int (round_half_even m) < real_of_int (2 ^ 53)"
        unfolding r_def qQ Q by simp
      also have "\<dots> \<longleftrightarrow> \<not> (2::int) ^ 53 \<le> round_half_even m"
        by (simp only: of_int_less_iff not_le)
      also have "\<dots> \<longleftrightarrow> \<not> real_of_int (2 ^ 53) - 1 / 2 \<le> m"
        by (subst round_half_even_ge_even) simp_all
      also have "\<dots> \<longleftrightarrow> \<bar>z\<bar> < 2 ^ 1024 - 2 ^ 970"
        unfolding m_def qQ Q by (auto simp: field_simps)
      finally show ?thesis by (simp add: fin)
    qed
  qed
qed

lemma round_half_even_nearest:
  assumes "\<bar>of_int n - m\<bar> < 1 / 2"
  shows "round_half_even m = n"
proof (cases "of_int n \<le> m")
  case True
  with assms have "\<lfloor>m\<rfloor> = n" by (intro floor_unique) auto
  with assms True show ?thesis by (simp add: round_half_even_def)
next
  case False
  with assms have fl: "\<lfloor>m\<rfloor> = n - 1" by (intro floor_unique) auto
  from assms False have "1 / 2 < m - of_int (n - 1)" by auto
  with fl show ?thesis by (simp add: round_half_even_def)
qed

text \<open>
  Rounding evaluated: in the binade of exponent \<open>e\<close>, the result is \<open>n\<close> quanta when \<open>n\<close>
  is the integer nearest to the magnitude counted in quanta.
\<close>

lemma round64_normal_eval:
  assumes "2 powi e \<le> \<bar>x\<bar>" "\<bar>x\<bar> < 2 powi (e + 1)" "- 1022 \<le> e" "e \<le> 1022"
    and "\<bar>of_int n - \<bar>x\<bar> / 2 powi (e - 52)\<bar> < 1 / 2"
  shows "round64 x = Fin (sgn x * (of_int n * 2 powi (e - 52)))"
proof -
  have q: "quantum x = 2 powi (e - 52)"
    using assms(1,2,3) by (rule quantum_normal)
  have n: "round_half_even (\<bar>x\<bar> / 2 powi (e - 52)) = n"
    using assms(5) by (rule round_half_even_nearest)
  note sc = binade_scaled [of e]
  from assms(2) sc(2,3) have "\<bar>x\<bar> / 2 powi (e - 52) \<le> of_int (2 ^ 53)"
    by (simp add: field_simps)
  from round_half_even_le [OF this] n have "n \<le> 2 ^ 53" by simp
  then have "real_of_int n \<le> real_of_int (2 ^ 53)" by (simp only: of_int_le_iff)
  then have "real_of_int n * 2 powi (e - 52) \<le> 2 ^ 53 * 2 powi (e - 52)"
    using sc(3) by (intro mult_right_mono) simp_all
  also have "\<dots> = 2 powi (e + 1)" by (simp only: sc(2))
  also have "\<dots> \<le> 2 powi 1023"
    using assms(4) by (intro power_int_increasing) simp_all
  finally have "real_of_int n * 2 powi (e - 52) < 2 ^ 1024" by simp
  then show ?thesis
    unfolding round64_def Let_def q n by simp
qed

lemma round64_overflow:
  assumes "2 ^ 1024 - 2 ^ 970 \<le> z"
  shows "round64 z = PInf"
proof -
  from assms have z: "0 < z" by simp
  with assms have "\<not> \<bar>z\<bar> < 2 ^ 1024 - 2 ^ 970" by simp
  then have "\<not> is_fin (round64 z)" unfolding round64_finite_iff .
  moreover from z have "round64 z = PInf \<or> (\<exists>r. round64 z = Fin r)"
    by (simp add: round64_def Let_def)
  ultimately show ?thesis by auto
qed

lemma representable_of_int:
  assumes "\<bar>k\<bar> < 2 ^ 53"
  shows "representable (of_int k)"
proof (cases "k = 0")
  case True
  then show ?thesis by (simp add: representable_zero)
next
  case False
  let ?x = "real_of_int k"
  from False have "1 \<le> \<bar>k\<bar>" by simp
  then have one: "1 \<le> \<bar>?x\<bar>" by (simp only: of_int_abs [symmetric] of_int_1_le_iff)
  from assms have "real_of_int \<bar>k\<bar> < real_of_int (2 ^ 53)" by (simp only: of_int_less_iff)
  then have lt: "\<bar>?x\<bar> < 2 ^ 53" by simp
  show ?thesis
    unfolding representable_def
  proof (rule round64_exact)
    from lt show "\<bar>?x\<bar> < 2 ^ 1024" by simp
    show "\<bar>?x\<bar> / quantum ?x \<in> \<int>"
    proof (rule quantum_cases [of ?x])
      assume "\<bar>?x\<bar> < 2 powi (- 1022)"
      with one show ?thesis by simp
    next
      fix e :: int
      assume e: "2 powi e \<le> \<bar>?x\<bar>" and q: "quantum ?x = 2 powi (e - 52)"
      have "e \<le> 52"
      proof (rule ccontr)
        assume "\<not> e \<le> 52"
        then have "53 \<le> e" by simp
        then have "(2::real) powi 53 \<le> 2 powi e"
          by (intro power_int_increasing) simp_all
        with e lt show False by simp
      qed
      define j where "j = nat (52 - e)"
      with \<open>e \<le> 52\<close> have "e - 52 = - int j" by simp
      then have "(2::real) powi (e - 52) = inverse (2 ^ j)"
        by (simp only: power_int_minus power_int_of_nat)
      then have "\<bar>?x\<bar> / quantum ?x = of_int (\<bar>k\<bar> * 2 ^ j)"
        by (simp add: q divide_inverse)
      then show ?thesis by (simp only: Ints_of_int)
    qed
  qed
qed

lemma round64_numeral: "(numeral n :: int) < 2 ^ 53 \<Longrightarrow> round64 (numeral n) = Fin (numeral n)"
  using representable_of_int [of "numeral n"] by (simp add: representable_def)

lemma round64_zero: "round64 0 = Fin 0"
  using representable_zero by (simp add: representable_def)

lemma round64_one: "round64 1 = Fin 1"
  using representable_of_int [of 1] by (simp add: representable_def)

lemma fsub64_Fin: "fsub64 (Fin a) (Fin b) = round64 (a - b)"
  by (simp add: fsub64_def fsub_def)

lemma fdiv64_Fin: "b \<noteq> 0 \<Longrightarrow> fdiv64 (Fin a) (Fin b) = round64 (a / b)"
  by (simp add: fdiv64_def)

lemma fdiv64_self_iff: "fdiv64 d d = Fin 1 \<longleftrightarrow> is_fin d \<and> d \<noteq> Fin 0"
  by (cases d) (simp_all add: fdiv64_def signed_inf_def round64_one)

lemma fsub64_finite_iff:
  "is_fin (fsub64 l f) \<longleftrightarrow> (\<exists>x y. l = Fin x \<and> f = Fin y \<and> \<bar>x - y\<bar> < 2 ^ 1024 - 2 ^ 970)"
  by (cases l; cases f) (simp_all add: fsub64_def fsub_def round64_finite_iff)

lemma fsub64_zero_iff:
  assumes "representable x" "representable y"
  shows "fsub64 (Fin x) (Fin y) = Fin 0 \<longleftrightarrow> x = y"
  using round64_difference_nonzero [OF assms] by (auto simp: fsub64_Fin round64_zero)

section \<open>The SOH reduction\<close>

lemma capacity_reduction_arrays:
  "c \<noteq> [] \<Longrightarrow> d \<noteq> [] \<Longrightarrow>
   calculate_capacity_soh_velocity_threshold (Array c) (Array d)
     = Scalar (fdiv64 (fsub64 (last c) (hd c)) (fsub64 (last d) (hd d)))"
  by (simp add: calculate_capacity_soh_velocity_threshold_def bind_def subscript_last subscript_first)

lemma energy_reduction_arrays:
  "c \<noteq> [] \<Longrightarrow> d \<noteq> [] \<Longrightarrow>
   calculate_energy_soh_flow_theory (Array c) (Array d)
     = Scalar (fdiv64 (fsub64 (last c) (hd c)) (fsub64 (last d) (hd d)))"
  by (simp add: calculate_energy_soh_flow_theory_def bind_def subscript_last subscript_first)

lemma capacity_reduction_scalar:
  "calculate_capacity_soh_velocity_threshold (Scalar a) discharge = PyNone"
  by (simp add: calculate_capacity_soh_velocity_threshold_def bind_def subscript_def)

lemma energy_reduction_scalar:
  "calculate_energy_soh_flow_theory (Scalar a) discharge = PyNone"
  by (simp add: calculate_energy_soh_flow_theory_def bind_def subscript_def)

lemma ratio_one_iff:
  assumes "float64 f" "float64 l"
  shows "fdiv64 (fsub64 l f) (fsub64 l f) = Fin 1
     \<longleftrightarrow> (\<exists>x y. l = Fin x \<and> f = Fin y \<and> x \<noteq> y \<and> \<bar>x - y\<bar> < 2 ^ 1024 - 2 ^ 970)"
proof (cases "is_fin (fsub64 l f)")
  case False
  then show ?thesis by (auto simp: fdiv64_self_iff fsub64_finite_iff)
next
  case True
  then obtain x y where xy: "l = Fin x" "f = Fin y" "\<bar>x - y\<bar> < 2 ^ 1024 - 2 ^ 970"
    by (auto simp: fsub64_finite_iff)
  from assms xy have "representable x" "representable y" by simp_all
  from fsub64_zero_iff [OF this] True xy show ?thesis
    by (auto simp: fdiv64_self_iff)
qed

text \<open>
  C1, as stated, fails: the claim promises the value 1.0 for every pair of identical
  arrays whose last value differs from the first. The two values \<open>-2^1023\<close> and \<open>2^1023\<close>
  are finite and distinct, but their difference overflows to infinity and the quotient
  of the two infinities is NaN. An infinite last value gives NaN in the same way, and so
  does the NaN marker that \<^verbatim>\<open>apply_voltage_window\<close> writes.
\<close>

theorem soh_identical_arrays_counterexample:
  "float64 (Fin (- (2 ^ 1023))) \<and> float64 (Fin (2 ^ 1023))
   \<and> last [Fin (- (2 ^ 1023)), Fin (2 ^ 1023)] \<noteq> hd [Fin (- (2 ^ 1023)), Fin (2 ^ 1023)]
   \<and> calculate_capacity_soh_velocity_threshold
        (Array [Fin (- (2 ^ 1023)), Fin (2 ^ 1023)]) (Array [Fin (- (2 ^ 1023)), Fin (2 ^ 1023)])
       = Scalar NaN
   \<and> calculate_capacity_soh_velocity_threshold (Array [Fin 0, PInf]) (Array [Fin 0, PInf])
       = Scalar NaN
   \<and> calculate_capacity_soh_velocity_threshold (Array [Fin 0, NaN]) (Array [Fin 0, NaN])
       = Scalar NaN"
proof -
  have r: "representable (2 ^ 1023)"
    by (rule representable_normal [of 1023]) simp_all
  then have "representable (- (2 ^ 1023))"
    by (simp only: representable_minus)
  moreover have "round64 (2 ^ 1023 + 2 ^ 1023) = PInf"
    by (rule round64_overflow) simp
  then have "fsub64 (Fin (2 ^ 1023)) (Fin (- (2 ^ 1023))) = PInf"
    by (simp add: fsub64_Fin)
  ultimately show ?thesis
    using r by (simp add: capacity_reduction_arrays fsub64_def fsub_def fdiv64_def)
qed

text \<open>
  C1, amended: on non-empty arrays both reductions return (last charge - first charge)
  divided by (last discharge - first discharge), each operation rounded to
  \<^verbatim>\<open>float64\<close>; on identical charge and discharge arrays of \<^verbatim>\<open>float64\<close> values the
  result is exactly 1.0 if and only if the first and the last value are finite and
  distinct and their difference does not overflow, that is, stays below
  \<open>2^1024 - 2^970\<close> in magnitude.
\<close>

theorem soh_reduction_ratio:
  assumes "c \<noteq> []" and "d \<noteq> []"
  shows "calculate_capacity_soh_velocity_threshold (Array c) (Array d)
           = Scalar (fdiv64 (fsub64 (last c) (hd c)) (fsub64 (last d) (hd d)))
       \<and> calculate_energy_soh_flow_theory (Array c) (Array d)
           = Scalar (fdiv64 (fsub64 (last c) (hd c)) (fsub64 (last d) (hd d)))
       \<and> (float64 (hd c) \<and> float64 (last c) \<longrightarrow>
            (calculate_capacity_soh_velocity_threshold (Array c) (Array c) = Scalar (Fin 1)
               \<longleftrightarrow> (\<exists>x y. last c = Fin x \<and> hd c = Fin y \<and> x \<noteq> y
                          \<and> \<bar>x - y\<bar> < 2 ^ 1024 - 2 ^ 970)))
       \<and> (float64 (hd c) \<and> float64 (last c) \<longrightarrow>
            (calculate_energy_soh_flow_theory (Array c) (Array c) = Scalar (Fin 1)
               \<longleftrightarrow> (\<exists>x y. last c = Fin x \<and> hd c = Fin y \<and> x \<noteq> y
                          \<and> \<bar>x - y\<bar> < 2 ^ 1024 - 2 ^ 970)))"
proof (intro conjI impI)
  show "calculate_capacity_soh_velocity_threshold (Array c) (Array d)
           = Scalar (fdiv64 (fsub64 (last c) (hd c)) (fsub64 (last d) (hd d)))"
    using assms by (rule capacity_reduction_arrays)
  show "calculate_energy_soh_flow_theory (Array c) (Array d)
           = Scalar (fdiv64 (fsub64 (last c) (hd c)) (fsub64 (last d) (hd d)))"
    using assms by (rule energy_reduction_arrays)
next
  assume "float64 (hd c) \<and> float64 (last c)"
  then have f: "float64 (hd c)" "float64 (last c)" by simp_all
  show "calculate_capacity_soh_velocity_threshold (Array c) (Array c) = Scalar (Fin 1)
      \<longleftrightarrow> (\<exists>x y. last c = Fin x \<and> hd c = Fin y \<and> x \<noteq> y \<and> \<bar>x - y\<bar> < 2 ^ 1024 - 2 ^ 970)"
    using assms(1) ratio_one_iff [OF f] by (simp add: capacity_reduction_arrays)
next
  assume "float64 (hd c) \<and> float64 (last c)"
  then have f: "float64 (hd c)" "float64 (last c)" by simp_all
  show "calculate_energy_soh_flow_theory (Array c) (Array c) = Scalar (Fin 1)
      \<longleftrightarrow> (\<exists>x y. last c = Fin x \<and> hd c = Fin y \<and> x \<noteq> y \<and> \<bar>x - y\<bar> < 2 ^ 1024 - 2 ^ 970)"
    using assms(1) ratio_one_iff [OF f] by (simp add: energy_reduction_arrays)
qed

theorem soh_reduction_ratio_witness:
  "[Fin 0, Fin 10, Fin 40] \<noteq> [] \<and> [Fin 0, Fin 5, Fin 20] \<noteq> []
   \<and> calculate_capacity_soh_velocity_threshold
      (Array [Fin 0, Fin 10, Fin 40]) (Array [Fin 0, Fin 5, Fin 20]) = Scalar (Fin 2)
   \<and> calculate_energy_soh_flow_theory
      (Array [Fin 0, Fin 10, Fin 40]) (Array [Fin 0, Fin 5, Fin 20]) = Scalar (Fin 2)
   \<and> float64 (Fin 0) \<and> float64 (Fin 40)
   \<and> calculate_capacity_soh_velocity_threshold
      (Array [Fin 0, Fin 10, Fin 40]) (Array [Fin 0, Fin 10, Fin 40]) = Scalar (Fin 1)
   \<and> calculate_energy_soh_flow_theory
      (Array [Fin 0, Fin 10, Fin 40]) (Array [Fin 0, Fin 10, Fin 40]) = Scalar (Fin 1)"
  using soh_reduction_ratio [of "[Fin 0, Fin 10, Fin 40]" "[Fin 0, Fin 5, Fin 20]"]
  by (simp add: fsub64_Fin fdiv64_Fin round64_numeral round64_zero representable_def)

section \<open>Integration and the SOH pipeline\<close>

lemma length_np_diff: "length (np_diff xs) = length xs - 1"
  by (simp add: np_diff_def)

lemma length_cumsum_from: "length (cumsum_from a xs) = length xs"
  by (induction xs arbitrary: a) simp_all

lemma length_np_cumsum: "length (np_cumsum xs) = length xs"
  by (cases xs) (simp_all add: length_cumsum_from)

lemma length_trapezoids: "length (trapezoids d ys) = min (length d) (length ys - 1)"
  by (simp add: trapezoids_def)

text \<open>
  What \<open>cumtrapz\<close> returns on one-dimensional data when it returns: one one-dimensional
  array, as long as the data, over a one-dimensional time axis of fitting length.
\<close>

lemma cumtrapz_Vec_Inr:
  "cumtrapz (Some (Vec ys)) x = Inr r \<Longrightarrow>
   \<exists>zs ts. r = Vec zs \<and> x = Vec ts \<and> ys \<noteq> [] \<and> length zs = length ys
        \<and> length ts - 1 = length ys - 1"
  by (cases x)
     (auto simp: cumtrapz_def Let_def length_np_cumsum length_trapezoids length_np_diff
           split: if_splits)

lemma cumtrapz_None: "\<exists>e. cumtrapz None x = Inl e"
  by (cases x) (simp_all add: cumtrapz_def)

lemma cumtrapz_two:
  "\<exists>t. cumtrapz (Some (Vec [a, b])) (Vec [t0, t1]) = Inr (Vec [Fin 0, t])"
  by (simp add: cumtrapz_def Let_def np_diff_def trapezoids_def)

lemma integrate_two:
  "integrate_charge_discharge (Some (Vec [a, b])) (Vec [t0, t1]) = (Scalar (Fin 0), Scalar (Fin 0))"
proof -
  from cumtrapz_two
  obtain t where t: "cumtrapz (Some (Vec [a, b])) (Vec [t0, t1]) = Inr (Vec [Fin 0, t])"
    by blast
  from cumtrapz_two
  obtain u where u: "cumtrapz (Some (Vec [fneg a, fneg b])) (Vec [t0, t1]) = Inr (Vec [Fin 0, u])"
    by blast
  show ?thesis
    by (simp add: integrate_charge_discharge_def bind_def t u unpack2_def np_negative_def)
qed

lemma unpack2_Vec_Inl: "length xs \<noteq> 2 \<Longrightarrow> unpack2 (Vec xs) = Inl ValueError"
  by (auto simp: unpack2_def split: list.splits)

lemma integrate_other:
  assumes "\<not> (length q = 2 \<and> (\<exists>t0 t1. time = Vec [t0, t1]))"
  shows "integrate_charge_discharge (Some (Vec q)) time = (PyNone, PyNone)"
proof (cases "cumtrapz (Some (Vec q)) time")
  case (Inl e)
  then show ?thesis by (simp add: integrate_charge_discharge_def bind_def)
next
  case (Inr r)
  from cumtrapz_Vec_Inr [OF Inr]
  obtain zs ts where r: "r = Vec zs" "time = Vec ts" "q \<noteq> []" "length zs = length q"
     "length ts - 1 = length q - 1" by blast
  have "length zs \<noteq> 2"
  proof
    assume "length zs = 2"
    with r have l: "length q = 2" and "length ts - 1 = 1" by simp_all
    then have "length ts = 2" by simp
    then obtain t0 t1 where "ts = [t0, t1]"
      by (cases ts; cases "tl ts") auto
    with l r(2) assms show False by blast
  qed
  then have "unpack2 (Vec zs) = Inl ValueError" by (rule unpack2_Vec_Inl)
  with Inr r(1) show ?thesis by (simp add: integrate_charge_discharge_def bind_def)
qed

lemma integrate_Vec:
  "integrate_charge_discharge (Some (Vec q)) time =
     (if length q = 2 \<and> (\<exists>t0 t1. time = Vec [t0, t1])
      then (Scalar (Fin 0), Scalar (Fin 0)) else (PyNone, PyNone))"
proof (cases "length q = 2 \<and> (\<exists>t0 t1. time = Vec [t0, t1])")
  case True
  then obtain a b t0 t1 where "q = [a, b]" "time = Vec [t0, t1]"
    by (cases q; cases "tl q") auto
  with True show ?thesis by (simp add: integrate_two)
next
  case False
  with integrate_other [OF False] show ?thesis by simp
qed

lemma integrate_None: "integrate_charge_discharge None time = (PyNone, PyNone)"
  using cumtrapz_None [of time] by (auto simp: integrate_charge_discharge_def bind_def)

lemma apply_voltage_window_Vec:
  "apply_voltage_window cfg (Vec q) time = None
   \<or> (\<exists>ys. apply_voltage_window cfg (Vec q) time = Some (Vec ys) \<and> length ys = length q)"
  by (auto simp: apply_voltage_window_def bind_def config_get_def
           split: config_obj.splits option.splits)

lemma validate_cutoff_None: "validate_cutoff_conditions cfg PyNone discharge = False"
  by (simp add: validate_cutoff_conditions_def bind_def np_less_def split: sum.splits)

lemma integrate_window_shape:
  "integrate_charge_discharge (apply_voltage_window cfg (Vec q) time') time = (PyNone, PyNone)
   \<or> integrate_charge_discharge (apply_voltage_window cfg (Vec q) time') time
       = (Scalar (Fin 0), Scalar (Fin 0))"
  using apply_voltage_window_Vec [of cfg q time']
  by (auto simp: integrate_None integrate_Vec)

lemma capacity_pipeline_none:
  "(case integrate_charge_discharge (apply_voltage_window cfg (Vec q) time) time of
      (charge, discharge) \<Rightarrow>
        if \<not> validate_cutoff_conditions cfg charge discharge then Inr PyNone
        else Inr (calculate_capacity_soh_velocity_threshold charge discharge))
   = (Inr PyNone :: exn + pyval)"
  using integrate_window_shape [of cfg q time time]
  by (auto simp: validate_cutoff_None capacity_reduction_scalar)

lemma energy_pipeline_none:
  "(case integrate_charge_discharge (apply_voltage_window cfg (Vec q) time) time of
      (charge, discharge) \<Rightarrow>
        if \<not> validate_cutoff_conditions cfg charge discharge then Inr PyNone
        else Inr (calculate_energy_soh_flow_theory charge discharge))
   = (Inr PyNone :: exn + pyval)"
  using integrate_window_shape [of cfg q time time]
  by (auto simp: validate_cutoff_None energy_reduction_scalar)

lemma capacity_soh_none:
  assumes "\<forall>rows. df ''capacity'' \<noteq> Some (Mat rows)"
  shows "calculate_capacity_soh cfg df = Inr PyNone"
proof (cases "df ''capacity''")
  case None
  then show ?thesis by (simp add: calculate_capacity_soh_def column_def bind_def)
next
  case (Some arr)
  with assms obtain q where q: "df ''capacity'' = Some (Vec q)"
    by (cases arr) auto
  show ?thesis
  proof (cases "df ''time''")
    case None
    with q show ?thesis by (simp add: calculate_capacity_soh_def column_def bind_def)
  next
    case (Some time)
    with q show ?thesis
      by (simp add: calculate_capacity_soh_def column_def bind_def capacity_pipeline_none)
  qed
qed

lemma energy_soh_none:
  assumes "\<forall>rows. df ''energy'' \<noteq> Some (Mat rows)"
  shows "calculate_energy_soh cfg df = Inr PyNone"
proof (cases "df ''energy''")
  case None
  then show ?thesis by (simp add: calculate_energy_soh_def column_def bind_def)
next
  case (Some arr)
  with assms obtain q where q: "df ''energy'' = Some (Vec q)"
    by (cases arr) auto
  show ?thesis
  proof (cases "df ''time''")
    case None
    with q show ?thesis by (simp add: calculate_energy_soh_def column_def bind_def)
  next
    case (Some time)
    with q show ?thesis
      by (simp add: calculate_energy_soh_def column_def bind_def energy_pipeline_none)
  qed
qed

lemma capacity_reduction_result:
  "calculate_capacity_soh_velocity_threshold charge discharge = PyNone
   \<or> (\<exists>x. calculate_capacity_soh_velocity_threshold charge discharge = Scalar x)"
  by (simp add: calculate_capacity_soh_velocity_threshold_def split: sum.splits)

lemma energy_reduction_result:
  "calculate_energy_soh_flow_theory charge discharge = PyNone
   \<or> (\<exists>x. calculate_energy_soh_flow_theory charge discharge = Scalar x)"
  by (simp add: calculate_energy_soh_flow_theory_def split: sum.splits)

lemma capacity_soh_returns:
  "calculate_capacity_soh cfg df = Inr PyNone \<or> (\<exists>x. calculate_capacity_soh cfg df = Inr (Scalar x))"
proof (cases "column df ''capacity''")
  case (Inl e)
  then show ?thesis by (simp add: calculate_capacity_soh_def bind_def)
next
  case c: (Inr capacity)
  show ?thesis
  proof (cases "column df ''time''")
    case (Inl e)
    with c show ?thesis by (simp add: calculate_capacity_soh_def bind_def)
  next
    case (Inr time)
    obtain charge discharge
      where i: "integrate_charge_discharge (apply_voltage_window cfg capacity time) time
                 = (charge, discharge)"
      by (cases "integrate_charge_discharge (apply_voltage_window cfg capacity time) time") auto
    from capacity_reduction_result [of charge discharge] c Inr i show ?thesis
      by (auto simp: calculate_capacity_soh_def bind_def Let_def)
  qed
qed

lemma energy_soh_returns:
  "calculate_energy_soh cfg df = Inr PyNone \<or> (\<exists>x. calculate_energy_soh cfg df = Inr (Scalar x))"
proof (cases "column df ''energy''")
  case (Inl e)
  then show ?thesis by (simp add: calculate_energy_soh_def bind_def)
next
  case c: (Inr energy)
  show ?thesis
  proof (cases "column df ''time''")
    case (Inl e)
    with c show ?thesis by (simp add: calculate_energy_soh_def bind_def)
  next
    case (Inr time)
    obtain charge discharge
      where i: "integrate_charge_discharge (apply_voltage_window cfg energy time) time
                 = (charge, discharge)"
      by (cases "integrate_charge_discharge (apply_voltage_window cfg energy time) time") auto
    from energy_reduction_result [of charge discharge] c Inr i show ?thesis
      by (auto simp: calculate_energy_soh_def bind_def Let_def)
  qed
qed

text \<open>
  C3 does not hold of the code. On one-dimensional data
  \<^verbatim>\<open>integrate_charge_discharge\<close> never returns an array: it returns the two scalars
  \<open>(0.0, 0.0)\<close> when both arrays have exactly two samples, and \<open>(None, None)\<close> in every
  other case, because each result of \<^verbatim>\<open>cumtrapz\<close> is unpacked into two names. On the
  five samples of the specification's own scenario, \<^verbatim>\<open>cumtrapz\<close> computes the running
  integral \<open>[0, 5, 20, 45, 80]\<close> and the method returns \<open>(None, None)\<close>.
\<close>

theorem integrate_charge_discharge_result:
  "integrate_charge_discharge (Some (Vec q)) time =
     (if length q = 2 \<and> (\<exists>t0 t1. time = Vec [t0, t1])
      then (Scalar (Fin 0), Scalar (Fin 0)) else (PyNone, PyNone))
   \<and> integrate_charge_discharge None time = (PyNone, PyNone)
   \<and> cumtrapz (Some (Vec [Fin 0, Fin 10, Fin 20, Fin 30, Fin 40]))
        (Vec [Fin 0, Fin 1, Fin 2, Fin 3, Fin 4])
       = Inr (Vec [Fin 0, Fin 5, Fin 20, Fin 45, Fin 80])
   \<and> integrate_charge_discharge (Some (Vec [Fin 0, Fin 10, Fin 20, Fin 30, Fin 40]))
        (Vec [Fin 0, Fin 1, Fin 2, Fin 3, Fin 4]) = (PyNone, PyNone)"
proof (intro conjI)
  show "integrate_charge_discharge (Some (Vec q)) time =
     (if length q = 2 \<and> (\<exists>t0 t1. time = Vec [t0, t1])
      then (Scalar (Fin 0), Scalar (Fin 0)) else (PyNone, PyNone))"
    by (rule integrate_Vec)
  show "integrate_charge_discharge None time = (PyNone, PyNone)"
    by (rule integrate_None)
  show "cumtrapz (Some (Vec [Fin 0, Fin 10, Fin 20, Fin 30, Fin 40]))
        (Vec [Fin 0, Fin 1, Fin 2, Fin 3, Fin 4])
       = Inr (Vec [Fin 0, Fin 5, Fin 20, Fin 45, Fin 80])"
    by (simp add: cumtrapz_def np_diff_def trapezoids_def fsub_def)
  show "integrate_charge_discharge (Some (Vec [Fin 0, Fin 10, Fin 20, Fin 30, Fin 40]))
        (Vec [Fin 0, Fin 1, Fin 2, Fin 3, Fin 4]) = (PyNone, PyNone)"
    by (rule integrate_other) simp
qed

text \<open>
  C4, as stated, fails: a DataFrame in which two columns carry the label
  \<^verbatim>\<open>capacity\<close> yields a two-dimensional array. With two rows, \<open>(1, 2)\<close> and \<open>(3, 4)\<close>,
  over the times \<open>0, 1\<close>, \<^verbatim>\<open>cumtrapz\<close> integrates along each row and returns the two rows
  \<open>[0, 1.5]\<close> and \<open>[0, 3.5]\<close>; both unpackings succeed, the cutoffs \<open>-inf\<close> are met, and
  the calculator returns the number \<open>1.5 / -1.5 = -1.0\<close>.
\<close>

theorem soh_numeric_counterexample:
  "calculate_capacity_soh
      (ConfigDict \<lparr> voltage_window = Some (Fin 0, Fin 100),
                    cutoff_charge = Some NInf, cutoff_discharge = Some NInf \<rparr>)
      [''capacity'' \<mapsto> Mat [[Fin 1, Fin 2], [Fin 3, Fin 4]], ''time'' \<mapsto> Vec [Fin 0, Fin 1]]
     = Inr (Scalar (Fin (- 1)))
   \<and> cumtrapz (Some (Mat [[Fin 1, Fin 2], [Fin 3, Fin 4]])) (Vec [Fin 0, Fin 1])
     = Inr (Mat [[Fin 0, Fin (3 / 2)], [Fin 0, Fin (7 / 2)]])
   \<and> calculate_energy_soh
      (ConfigDict \<lparr> voltage_window = Some (Fin 0, Fin 100),
                    cutoff_charge = Some NInf, cutoff_discharge = Some NInf \<rparr>)
      [''energy'' \<mapsto> Mat [[Fin 1, Fin 2], [Fin 3, Fin 4]], ''time'' \<mapsto> Vec [Fin 0, Fin 1]]
     = Inr (Scalar (Fin (- 1)))"
proof -
  have "representable (3 / 2)"
    by (rule representable_normal [of 0]) simp_all
  then have r: "round64 (3 / 2) = Fin (3 / 2)"
    by (simp only: representable_def)
  have c: "cumtrapz (Some (Mat [[Fin 1, Fin 2], [Fin 3, Fin 4]])) (Vec [Fin 0, Fin 1])
     = Inr (Mat [[Fin 0, Fin (3 / 2)], [Fin 0, Fin (7 / 2)]])"
    by (simp add: cumtrapz_def np_diff_def trapezoids_def fsub_def ncols_def)
  have d: "cumtrapz (Some (Mat [[Fin (- 1), Fin (- 2)], [Fin (- 3), Fin (- 4)]])) (Vec [Fin 0, Fin 1])
     = Inr (Mat [[Fin 0, Fin (- (3 / 2))], [Fin 0, Fin (- (7 / 2))]])"
    by (simp add: cumtrapz_def np_diff_def trapezoids_def fsub_def ncols_def)
  have w: "window (Fin 0) (Fin 100) (Fin 1) = Fin 1" "window (Fin 0) (Fin 100) (Fin 2) = Fin 2"
    "window (Fin 0) (Fin 100) (Fin 3) = Fin 3" "window (Fin 0) (Fin 100) (Fin 4) = Fin 4"
    by (simp_all add: window_def fgt_def)
  have i: "integrate_charge_discharge (Some (Mat [[Fin 1, Fin 2], [Fin 3, Fin 4]])) (Vec [Fin 0, Fin 1])
     = (Array [Fin 0, Fin (3 / 2)], Array [Fin 0, Fin (- (3 / 2))])"
    by (simp add: integrate_charge_discharge_def bind_def c d unpack2_def np_negative_def)
  have v: "validate_cutoff_conditions
      (ConfigDict \<lparr> voltage_window = Some (Fin 0, Fin 100),
                    cutoff_charge = Some NInf, cutoff_discharge = Some NInf \<rparr>)
      (Array [Fin 0, Fin (3 / 2)]) (Array [Fin 0, Fin (- (3 / 2))])"
    by (simp add: validate_cutoff_conditions_def bind_def config_get_def np_less_def)
  have s: "fdiv64 (fsub64 (Fin (3 / 2)) (Fin 0)) (fsub64 (Fin (- (3 / 2))) (Fin 0)) = Fin (- 1)"
    by (simp add: fsub64_Fin fdiv64_def round64_minus r round64_one)
  show ?thesis
    by (simp add: calculate_capacity_soh_def calculate_energy_soh_def column_def bind_def
          apply_voltage_window_def config_get_def w i v c
          capacity_reduction_arrays energy_reduction_arrays s)
qed

text \<open>
  C4, amended: for every configuration object and every DataFrame in which the label
  \<^verbatim>\<open>capacity\<close> (respectively \<^verbatim>\<open>energy\<close>) is missing or selects a one-dimensional
  array, \<^verbatim>\<open>calculate_capacity_soh\<close> (respectively \<^verbatim>\<open>calculate_energy_soh\<close>) returns
  \<^verbatim>\<open>None\<close>.
  The mechanism: on one-dimensional data the integration step hands on either
  \<open>(None, None)\<close> or two scalars, never arrays; the cutoff check is false on \<^verbatim>\<open>None\<close>,
  and both reductions return \<^verbatim>\<open>None\<close> on a scalar, which cannot be indexed. For every
  DataFrame whatsoever no exception reaches the caller, and the value returned is
  \<^verbatim>\<open>None\<close> or a single number.
\<close>

theorem soh_always_none:
  "((\<forall>rows. df ''capacity'' \<noteq> Some (Mat rows)) \<longrightarrow> calculate_capacity_soh cfg df = Inr PyNone)
   \<and> ((\<forall>rows. df ''energy'' \<noteq> Some (Mat rows)) \<longrightarrow> calculate_energy_soh cfg df = Inr PyNone)
   \<and> (calculate_capacity_soh cfg df = Inr PyNone
        \<or> (\<exists>x. calculate_capacity_soh cfg df = Inr (Scalar x)))
   \<and> (calculate_energy_soh cfg df = Inr PyNone
        \<or> (\<exists>x. calculate_energy_soh cfg df = Inr (Scalar x)))
   \<and> (integrate_charge_discharge (Some (Vec q)) time = (PyNone, PyNone)
        \<or> integrate_charge_discharge (Some (Vec q)) time = (Scalar (Fin 0), Scalar (Fin 0)))
   \<and> integrate_charge_discharge None time = (PyNone, PyNone)
   \<and> validate_cutoff_conditions cfg PyNone PyNone = False
   \<and> calculate_capacity_soh_velocity_threshold (Scalar x) (Scalar y) = PyNone
   \<and> calculate_energy_soh_flow_theory (Scalar x) (Scalar y) = PyNone"
proof (intro conjI impI)
  assume "\<forall>rows. df ''capacity'' \<noteq> Some (Mat rows)"
  then show "calculate_capacity_soh cfg df = Inr PyNone"
    by (rule capacity_soh_none)
next
  assume "\<forall>rows. df ''energy'' \<noteq> Some (Mat rows)"
  then show "calculate_energy_soh cfg df = Inr PyNone"
    by (rule energy_soh_none)
next
  show "calculate_capacity_soh cfg df = Inr PyNone
        \<or> (\<exists>x. calculate_capacity_soh cfg df = Inr (Scalar x))"
    by (rule capacity_soh_returns)
  show "calculate_energy_soh cfg df = Inr PyNone
        \<or> (\<exists>x. calculate_energy_soh cfg df = Inr (Scalar x))"
    by (rule energy_soh_returns)
  show "integrate_charge_discharge (Some (Vec q)) time = (PyNone, PyNone)
        \<or> integrate_charge_discharge (Some (Vec q)) time = (Scalar (Fin 0), Scalar (Fin 0))"
    by (simp add: integrate_Vec)
  show "integrate_charge_discharge None time = (PyNone, PyNone)"
    by (rule integrate_None)
  show "validate_cutoff_conditions cfg PyNone PyNone = False"
    by (rule validate_cutoff_None)
  show "calculate_capacity_soh_velocity_threshold (Scalar x) (Scalar y) = PyNone"
    by (rule capacity_reduction_scalar)
  show "calculate_energy_soh_flow_theory (Scalar x) (Scalar y) = PyNone"
    by (rule energy_reduction_scalar)
qed

theorem soh_always_none_witness:
  "calculate_capacity_soh
      (ConfigDict \<lparr> voltage_window = Some (Fin (- 1), Fin 100),
                    cutoff_charge = Some NInf, cutoff_discharge = Some NInf \<rparr>)
      [''capacity'' \<mapsto> Vec [Fin 0, Fin 10, Fin 20, Fin 30, Fin 40],
       ''time'' \<mapsto> Vec [Fin 0, Fin 1, Fin 2, Fin 3, Fin 4]] = Inr PyNone
   \<and> calculate_energy_soh ConfigHandler
      [''energy'' \<mapsto> Vec [Fin 1, Fin 2], ''time'' \<mapsto> Vec [Fin 0, Fin 1]] = Inr PyNone"
  using soh_always_none
          [of "[''capacity'' \<mapsto> Vec [Fin 0, Fin 10, Fin 20, Fin 30, Fin 40],
                ''time'' \<mapsto> Vec [Fin 0, Fin 1, Fin 2, Fin 3, Fin 4]]"
              "ConfigDict \<lparr> voltage_window = Some (Fin (- 1), Fin 100),
                             cutoff_charge = Some NInf, cutoff_discharge = Some NInf \<rparr>"]
        soh_always_none
          [of "[''energy'' \<mapsto> Vec [Fin 1, Fin 2], ''time'' \<mapsto> Vec [Fin 0, Fin 1]]" ConfigHandler]
  by simp



section \<open>Smoothing\<close>



lemma smooth_window:
  "0 \<le> w \<Longrightarrow>
   smooth data w = np_convolve_valid data (replicate (nat w) (fdiv (Fin 1) (Fin (real_of_int w))))"
  by (simp add: smooth_def np_ones_def bind_def Let_def)

lemma convolve_no_swap:
  "v \<noteq> [] \<Longrightarrow> length v \<le> length a \<Longrightarrow> np_convolve_valid a v = Inr (correlate_valid a (rev v))"
  by (auto simp: np_convolve_valid_def)

lemma convolve_swap:
  "a \<noteq> [] \<Longrightarrow> length a < length v \<Longrightarrow> np_convolve_valid a v = Inr (correlate_valid v (rev a))"
  by (auto simp: np_convolve_valid_def)

lemma convolve_empty: "a = [] \<or> v = [] \<Longrightarrow> np_convolve_valid a v = Inl ValueError"
  by (auto simp: np_convolve_valid_def)

lemma length_correlate_valid: "length (correlate_valid a v) = length a - length v + 1"
  by (simp add: correlate_valid_def)

lemma smooth_valid:
  assumes "1 \<le> w" "nat w \<le> length data"
  shows "smooth data w = Inr (correlate_valid data (replicate (nat w) (Fin (1 / real_of_int w))))"
proof -
  from assms have "replicate (nat w) (Fin (1 / real_of_int w)) \<noteq> []" by simp
  with assms show ?thesis
    by (simp add: smooth_window convolve_no_swap)
qed






text \<open>
  C8, amended: \<^verbatim>\<open>_smooth\<close> never raises InvalidInputError. It fails, with NumPy's
  ValueError, exactly when \<open>window_size \<le> 0\<close> or the data array is empty; a window longer
  than a non-empty data array raises nothing and yields
  \<open>window_size - len(data) + 1\<close> samples.
\<close>

theorem smooth_window_errors:
  "(smooth data w = Inl ValueError \<longleftrightarrow> w \<le> 0 \<or> data = [])
   \<and> (\<forall>e. smooth data w = Inl e \<longrightarrow> e = ValueError)
   \<and> smooth data w \<noteq> Inl InvalidInputError
   \<and> (data \<noteq> [] \<and> int (length data) < w \<longrightarrow>
        (\<exists>out. smooth data w = Inr out \<and> length out = nat w - length data + 1))"
proof -
  consider (neg) "w < 0" | (zero) "w = 0" | (empty) "0 < w" "data = []"
    | (short) "0 < w" "data \<noteq> []" "int (length data) < w"
    | (fits) "0 < w" "data \<noteq> []" "nat w \<le> length data"
    by linarith
  then show ?thesis
  proof cases
    case neg
    then show ?thesis by (simp add: smooth_def np_ones_def bind_def)
  next
    case zero
    then show ?thesis by (simp add: smooth_window convolve_empty)
  next
    case empty
    then show ?thesis by (simp add: smooth_window convolve_empty)
  next
    case short
    then have "length data < length (replicate (nat w) (fdiv (Fin 1) (Fin (real_of_int w))))"
      by simp
    from convolve_swap [OF short(2) this] short show ?thesis
      by (simp add: smooth_window length_correlate_valid)
  next
    case fits
    then have v: "smooth data w = Inr (correlate_valid data (replicate (nat w) (Fin (1 / real_of_int w))))"
      by (intro smooth_valid) simp_all
    from fits have n: "\<not> int (length data) < w" "\<not> w \<le> 0" by linarith+
    show ?thesis
    proof (intro conjI)
      show "(smooth data w = Inl ValueError) = (w \<le> 0 \<or> data = [])"
        using n(2) fits(2) by (simp add: v)
      show "\<forall>e. smooth data w = Inl e \<longrightarrow> e = ValueError"
        by (simp add: v)
      show "smooth data w \<noteq> Inl InvalidInputError"
        by (simp add: v)
      show "data \<noteq> [] \<and> int (length data) < w \<longrightarrow>
        (\<exists>out. smooth data w = Inr out \<and> length out = nat w - length data + 1)"
        using n(1) by blast
    qed
  qed
qed

text \<open>
  C8, as stated, fails: a window of 3 on two samples (\<open>window_size > len(data)\<close>) returns
  a curve instead of failing, and a window of 0 fails with ValueError, not with
  InvalidInputError.
\<close>

theorem smooth_window_errors_counterexample:
  "int (length [Fin 1, Fin 2]) < 3 \<and> smooth [Fin 1, Fin 2] 3 = Inr [Fin 1, Fin 1]
   \<and> (0::int) \<le> 0 \<and> smooth [Fin 1, Fin 2] 0 = Inl ValueError
   \<and> smooth [Fin 1, Fin 2] 0 \<noteq> Inl InvalidInputError"
  by (simp add: smooth_def np_ones_def bind_def np_convolve_valid_def correlate_valid_def dot_def)

theorem smooth_window_errors_witness:
  "smooth [Fin 1, Fin 2] (- 1) = Inl ValueError \<and> smooth [] 1 = Inl ValueError
   \<and> [Fin 1, Fin 2] \<noteq> [] \<and> int (length [Fin 1, Fin 2]) < 4
   \<and> (\<exists>out. smooth [Fin 1, Fin 2] 4 = Inr out \<and> length out = nat 4 - length [Fin 1, Fin 2] + 1)"
  using smooth_window_errors [of "[Fin 1, Fin 2]" "- 1"] smooth_window_errors [of "[]" 1]
        smooth_window_errors [of "[Fin 1, Fin 2]" 4]
  by simp

section \<open>Input validation\<close>

text \<open>
  The sign test on a difference, in terms of the two samples: the difference
  \<open>b - a\<close> is \<open>\<ge> 0\<close> exactly when \<open>a \<le> b\<close> and the two are not the same infinity (whose
  difference is NaN).
\<close>

lemma fge_fsub_iff: "fge (fsub b a) (Fin 0) \<longleftrightarrow> fle a b \<and> (is_fin a \<or> a \<noteq> b)"
  by (cases a; cases b) (auto simp: fge_def fsub_def)

lemma transp_fle: "transp fle"
proof (rule transpI)
  fix x y z
  assume "fle x y" "fle y z"
  then show "fle x z"
    by (cases x; cases y; cases z) (auto split: if_splits)
qed

lemma np_diff_nth: "Suc i < length xs \<Longrightarrow> np_diff xs ! i = fsub (xs ! Suc i) (xs ! i)"
  by (simp add: np_diff_def nth_tl)

lemma diffs_nonneg_iff:
  "list_all (\<lambda>d. fge d (Fin 0)) (np_diff s)
     \<longleftrightarrow> sorted_wrt fle s \<and> \<not> (\<exists>i. Suc i < length s \<and> s ! i = s ! Suc i \<and> \<not> is_fin (s ! i))"
proof -
  have "list_all (\<lambda>d. fge d (Fin 0)) (np_diff s)
      \<longleftrightarrow> (\<forall>i. Suc i < length s \<longrightarrow> fge (fsub (s ! Suc i) (s ! i)) (Fin 0))"
  proof -
    have "i < length s - 1 \<longleftrightarrow> Suc i < length s" for i by auto
    then show ?thesis
      by (auto simp: list_all_length length_np_diff np_diff_nth)
  qed
  also have "\<dots> \<longleftrightarrow> (\<forall>i. Suc i < length s \<longrightarrow> fle (s ! i) (s ! Suc i))
       \<and> \<not> (\<exists>i. Suc i < length s \<and> s ! i = s ! Suc i \<and> \<not> is_fin (s ! i))"
    by (auto simp: fge_fsub_iff)
  also have "(\<forall>i. Suc i < length s \<longrightarrow> fle (s ! i) (s ! Suc i)) \<longleftrightarrow> sorted_wrt fle s"
    by (simp only: sorted_wrt_iff_nth_Suc_transp [OF transp_fle])
  finally show ?thesis .
qed

lemma sorted_wrt_fle_Fin: "sorted_wrt fle (map Fin ss) \<longleftrightarrow> sorted ss"
proof -
  have "(\<lambda>x y. fle (Fin x) (Fin y)) = (\<le>)"
    by (intro ext) auto
  then show ?thesis by (simp add: sorted_wrt_map)
qed

lemma current_nonpositive:
  "list_ex (\<lambda>x. fle x (Fin 0)) (map Fin cs) \<longleftrightarrow> (\<exists>x\<in>set cs. x \<le> 0)"
  by (induction cs) auto

lemma validate_input_error: "validate_input self = Inl e \<Longrightarrow> e = InvalidInputError"
  by (auto simp: validate_input_def split: if_splits)

lemma init_error: "init v c s = Inl e \<Longrightarrow> e = InvalidInputError"
  by (auto simp: init_def Let_def bind_def split: sum.splits dest: validate_input_error)

lemma init_Inl_iff:
  "init v c s = Inl InvalidInputError \<longleftrightarrow>
     length v \<noteq> length c \<or> length v \<noteq> length s
     \<or> list_ex (\<lambda>x. fle x (Fin 0)) c
     \<or> \<not> list_all (\<lambda>d. fge d (Fin 0)) (np_diff s)"
  by (auto simp: init_def Let_def bind_def validate_input_def split: sum.splits if_splits)

lemma calculate_dv_error: "calculate_dv self = Inl e \<Longrightarrow> e = ValueError"
  by (auto simp: calculate_dv_def raw_dv_def bind_def np_gradient_def Let_def np_divide_def
        smooth_def np_ones_def np_convolve_valid_def split: sum.splits if_splits)

lemma round64_nonneg: "0 \<le> z \<Longrightarrow> fge (round64 z) (Fin 0)"
proof -
  assume z: "0 \<le> z"
  have "0 \<le> real_of_int (round_half_even (\<bar>z\<bar> / quantum z)) * quantum z"
    using quantum_pos [of z] round_half_even_ge [of 0 "\<bar>z\<bar> / quantum z"] by simp
  with z show ?thesis
    by (auto simp: round64_def Let_def fge_def sgn_real_def)
qed

lemma round64_negative:
  assumes "z < 0" and "round64 z \<noteq> Fin 0"
  shows "\<not> fge (round64 z) (Fin 0)"
proof -
  have "0 \<le> real_of_int (round_half_even (\<bar>z\<bar> / quantum z)) * quantum z"
    using quantum_pos [of z] round_half_even_ge [of 0 "\<bar>z\<bar> / quantum z"] by simp
  with assms show ?thesis
    by (auto simp: round64_def Let_def fge_def sgn_real_def split: if_splits)
qed

text \<open>
  On \<^verbatim>\<open>float64\<close> samples the sign test on a difference comes out the same whether the
  difference is rounded or exact.
\<close>

lemma difference_sign_rounding:
  assumes "float64 a" "float64 b"
  shows "fge (fsub64 b a) (Fin 0) \<longleftrightarrow> fge (fsub b a) (Fin 0)"
proof (cases "is_fin a \<and> is_fin b")
  case False
  then have "fsub64 b a = fsub b a"
    by (cases a; cases b) (simp_all add: fsub64_def fsub_def)
  then show ?thesis by simp
next
  case True
  then obtain x y where xy: "a = Fin x" "b = Fin y"
    by (cases a; cases b) auto
  with assms have r: "representable x" "representable y" by simp_all
  show ?thesis
  proof (cases "x \<le> y")
    case True
    then show ?thesis
      using round64_nonneg [of "y - x"] by (auto simp: xy fsub64_Fin fsub_def fge_def)
  next
    case False
    then have "y - x < 0" "y \<noteq> x" by simp_all
    with round64_difference_nonzero [OF r(2,1)] round64_negative [of "y - x"] False
    show ?thesis by (auto simp: xy fsub64_Fin fsub_def fge_def)
  qed
qed

text \<open>
  C9, as stated, fails in one direction: with the SOC samples \<open>[inf, inf]\<close> the three
  arrays have the same length, every current sample is positive and SOC is
  non-decreasing, so no invariant is violated; yet the constructor raises
  InvalidInputError, because the difference of the two infinities is NaN, which is not
  \<open>\<ge> 0\<close>.
\<close>

theorem init_equal_infinities_counterexample:
  "length [Fin 3, Fin 4] = length [Fin 1, Fin 1] \<and> length [Fin 3, Fin 4] = length [PInf, PInf]
   \<and> \<not> list_ex (\<lambda>x. fle x (Fin 0)) [Fin 1, Fin 1]
   \<and> sorted_wrt fle [PInf, PInf]
   \<and> init [Fin 3, Fin 4] [Fin 1, Fin 1] [PInf, PInf] = Inl InvalidInputError"
  by (simp add: init_def validate_input_def bind_def np_diff_def fsub_def fge_def)

text \<open>
  C9, amended: the constructor of \<^verbatim>\<open>DVAnalyzer\<close> raises InvalidInputError if and only if
  the three arrays differ in length, some current sample is \<open>\<le> 0\<close>, SOC is not
  non-decreasing (a NaN next to another sample counts as out of order), or two
  consecutive SOC samples are the same infinity. On finite samples this is exactly:
  the lengths differ, some current is \<open>\<le> 0\<close>, or SOC is not sorted in non-decreasing
  order. The constructor raises nothing else, a raising constructor ends the whole
  analysis with that exception in place of any curve or classification, and the later
  curve computation never raises InvalidInputError.
\<close>

theorem init_invalid_input:
  "(init v c s = Inl InvalidInputError \<longleftrightarrow>
       length v \<noteq> length c \<or> length v \<noteq> length s
       \<or> (\<exists>x\<in>set c. fle x (Fin 0))
       \<or> \<not> sorted_wrt fle s
       \<or> (\<exists>i. Suc i < length s \<and> s ! i = s ! Suc i \<and> \<not> is_fin (s ! i)))
   \<and> (init v (map Fin cs) (map Fin ss) = Inl InvalidInputError \<longleftrightarrow>
       length v \<noteq> length cs \<or> length v \<noteq> length ss \<or> (\<exists>x\<in>set cs. x \<le> 0) \<or> \<not> sorted ss)
   \<and> (\<forall>e. init v c s = Inl e \<longrightarrow> e = InvalidInputError)
   \<and> (init v c s = Inl InvalidInputError \<longrightarrow> run_analysis indices v c s = Inl InvalidInputError)
   \<and> calculate_dv self \<noteq> Inl InvalidInputError"
proof (intro conjI allI impI)
  show "init v c s = Inl InvalidInputError \<longleftrightarrow>
       length v \<noteq> length c \<or> length v \<noteq> length s
       \<or> (\<exists>x\<in>set c. fle x (Fin 0))
       \<or> \<not> sorted_wrt fle s
       \<or> (\<exists>i. Suc i < length s \<and> s ! i = s ! Suc i \<and> \<not> is_fin (s ! i))"
    unfolding init_Inl_iff diffs_nonneg_iff list_ex_iff by blast
  have fin: "\<not> (\<exists>i. Suc i < length (map Fin ss) \<and> map Fin ss ! i = map Fin ss ! Suc i
               \<and> \<not> is_fin (map Fin ss ! i))"
    by auto
  show "init v (map Fin cs) (map Fin ss) = Inl InvalidInputError \<longleftrightarrow>
       length v \<noteq> length cs \<or> length v \<noteq> length ss \<or> (\<exists>x\<in>set cs. x \<le> 0) \<or> \<not> sorted ss"
    unfolding init_Inl_iff diffs_nonneg_iff current_nonpositive sorted_wrt_fle_Fin
    using fin by simp
next
  fix e assume "init v c s = Inl e"
  then show "e = InvalidInputError" by (rule init_error)
next
  assume "init v c s = Inl InvalidInputError"
  then show "run_analysis indices v c s = Inl InvalidInputError"
    by (simp add: run_analysis_def bind_def)
next
  show "calculate_dv self \<noteq> Inl InvalidInputError"
    using calculate_dv_error [of self InvalidInputError] by auto
qed

theorem init_invalid_input_witness:
  "init [Fin 3, Fin 4] [Fin 1, Fin 1] [Fin (2 / 10), Fin (1 / 10)] = Inl InvalidInputError
   \<and> \<not> sorted [2 / 10, 1 / 10 :: real]
   \<and> run_analysis (\<lambda>y t d. Inr []) [Fin 3, Fin 4] [Fin 1, Fin 1] [Fin (2 / 10), Fin (1 / 10)]
        = Inl InvalidInputError
   \<and> init [Fin 3, Fin 4] [Fin 1, Fin 0] [Fin (1 / 10), Fin (2 / 10)] = Inl InvalidInputError
   \<and> init [Fin 3, Fin 4, Fin 5] [Fin 1, Fin 1] [Fin (1 / 10), Fin (2 / 10)] = Inl InvalidInputError
   \<and> init [Fin 3, Fin 4] [Fin 1, Fin 1] [Fin (1 / 10), NaN] = Inl InvalidInputError
   \<and> init [Fin 3, Fin 4] [Fin 1, Fin 1] [Fin (1 / 10), Fin (2 / 10)] \<noteq> Inl InvalidInputError"
proof -
  have "\<not> sorted [2 / 10, 1 / 10 :: real]"
    unfolding sorted2 by simp
  then have a: "init [Fin 3, Fin 4] [Fin 1, Fin 1] [Fin (2 / 10), Fin (1 / 10)] = Inl InvalidInputError"
    using init_invalid_input [where v = "[Fin 3, Fin 4]" and cs = "[1, 1]" and ss = "[2 / 10, 1 / 10]",
            THEN conjunct2, THEN conjunct1]
    by (simp del: sorted_wrt.simps)
  have b: "run_analysis (\<lambda>y t d. Inr []) [Fin 3, Fin 4] [Fin 1, Fin 1] [Fin (2 / 10), Fin (1 / 10)]
        = Inl InvalidInputError"
    using init_invalid_input [where v = "[Fin 3, Fin 4]" and c = "[Fin 1, Fin 1]"
            and s = "[Fin (2 / 10), Fin (1 / 10)]" and indices = "\<lambda>y t d. Inr []"] a
    by blast
  have c: "init [Fin 3, Fin 4] [Fin 1, Fin 0] [Fin (1 / 10), Fin (2 / 10)] = Inl InvalidInputError"
    using init_invalid_input [where v = "[Fin 3, Fin 4]" and cs = "[1, 0]" and ss = "[1 / 10, 2 / 10]",
            THEN conjunct2, THEN conjunct1]
    by (simp add: sorted2)
  have d: "init [Fin 3, Fin 4, Fin 5] [Fin 1, Fin 1] [Fin (1 / 10), Fin (2 / 10)]
        = Inl InvalidInputError"
    using init_invalid_input [where v = "[Fin 3, Fin 4, Fin 5]" and cs = "[1, 1]" and ss = "[1 / 10, 2 / 10]",
            THEN conjunct2, THEN conjunct1]
    by (simp add: sorted2)
  have e: "init [Fin 3, Fin 4] [Fin 1, Fin 1] [Fin (1 / 10), NaN] = Inl InvalidInputError"
    using init_invalid_input [where v = "[Fin 3, Fin 4]" and c = "[Fin 1, Fin 1]"
            and s = "[Fin (1 / 10), NaN]", THEN conjunct1]
    by simp
  have f: "init [Fin 3, Fin 4] [Fin 1, Fin 1] [Fin (1 / 10), Fin (2 / 10)] \<noteq> Inl InvalidInputError"
    using init_invalid_input [where v = "[Fin 3, Fin 4]" and cs = "[1, 1]" and ss = "[1 / 10, 2 / 10]",
            THEN conjunct2, THEN conjunct1]
    by (simp add: sorted2)
  from a b c d e f \<open>\<not> sorted [2 / 10, 1 / 10 :: real]\<close> show ?thesis
    by (simp del: sorted_wrt.simps)
qed

section \<open>The raw differential-voltage curve\<close>

lemma init_Inr:
  "init v c s = Inr self \<Longrightarrow>
     self = \<lparr> voltage = v, current = c, soc = s, dv_curve = None, degradation_modes = None \<rparr>
     \<and> length v = length c \<and> length v = length s"
  by (auto simp: init_def Let_def bind_def validate_input_def split: sum.splits if_splits)

lemma np_gradient_nth:
  assumes "2 \<le> length f"
  shows "\<exists>g. np_gradient f = Inr g \<and> length g = length f
           \<and> (\<forall>i<length f. g ! i = difference_quotient f i)"
proof -
  define n where "n = length f"
  define g where "g = [fdiv64 (fsub64 (f ! 1) (f ! 0)) (Fin 1)]
                 @ map (\<lambda>i. fdiv64 (fsub64 (f ! (i + 1)) (f ! (i - 1))) (Fin 2)) [1..<n - 1]
                 @ [fdiv64 (fsub64 (f ! (n - 1)) (f ! (n - 2))) (Fin 1)]"
  from assms have n: "2 \<le> n" by (simp add: n_def)
  then have gr: "np_gradient f = Inr g"
    by (simp add: np_gradient_def Let_def g_def n_def)
  from n have len: "length g = n" by (simp add: g_def)
  have nth: "g ! i = difference_quotient f i" if i: "i < n" for i
  proof -
    consider (first) "i = 0" | (mid) "0 < i" "i + 1 < n" | (last) "0 < i" "i + 1 = n"
      using i by linarith
    then show ?thesis
    proof cases
      case first
      then show ?thesis by (simp add: g_def difference_quotient_def)
    next
      case mid
      let ?F = "\<lambda>i. fdiv64 (fsub64 (f ! (i + 1)) (f ! (i - 1))) (Fin 2)"
      from mid have j: "i - 1 < length (map ?F [1..<n - 1])" by simp
      from mid have k: "[1..<n - 1] ! (i - 1) = i" by simp
      from mid have "g ! i = (map ?F [1..<n - 1] @ [fdiv64 (fsub64 (f ! (n - 1)) (f ! (n - 2))) (Fin 1)]) ! (i - 1)"
        by (simp add: g_def nth_Cons')
      also from j have "\<dots> = map ?F [1..<n - 1] ! (i - 1)"
        by (simp only: nth_append if_True)
      also from j have "\<dots> = ?F ([1..<n - 1] ! (i - 1))"
        by (simp only: nth_map length_map)
      finally show ?thesis using mid by (simp add: k difference_quotient_def n_def)
    next
      case last
      let ?F = "\<lambda>i. fdiv64 (fsub64 (f ! (i + 1)) (f ! (i - 1))) (Fin 2)"
      let ?b = "fdiv64 (fsub64 (f ! (n - 1)) (f ! (n - 2))) (Fin 1)"
      from last have j: "\<not> i - 1 < length (map ?F [1..<n - 1])"
        and k: "i - 1 - length (map ?F [1..<n - 1]) = 0"
        by simp_all
      from last have "g ! i = (map ?F [1..<n - 1] @ [?b]) ! (i - 1)"
        by (simp add: g_def nth_Cons')
      also from j have "\<dots> = [?b] ! (i - 1 - length (map ?F [1..<n - 1]))"
        by (simp only: nth_append if_False)
      also have "\<dots> = ?b"
        by (simp only: k nth_Cons_0)
      finally have "g ! i = ?b" .
      moreover from last have "n - 1 = i" "n - 2 = i - 1" by simp_all
      ultimately show ?thesis using last by (simp add: difference_quotient_def n_def)
    qed
  qed
  from gr len nth show ?thesis by (auto simp: n_def)
qed

lemma np_gradient_linear:
  assumes "2 \<le> n" and "representable q" and "representable (2 * q)"
  shows "np_gradient (map (\<lambda>i. Fin (p + q * real i)) [0..<n]) = Inr (replicate n (Fin q))"
proof -
  let ?f = "map (\<lambda>i. Fin (p + q * real i)) [0..<n]"
  from assms(2) have q: "round64 q = Fin q" by (simp only: representable_def)
  from assms(3) have q2: "round64 (2 * q) = Fin (2 * q)" by (simp only: representable_def)
  have nth: "?f ! j = Fin (p + q * real j)" if "j < n" for j
    using that by simp
  have one_sided: "fdiv64 (fsub64 (?f ! Suc j) (?f ! j)) (Fin 1) = Fin q" if "Suc j < n" for j
  proof -
    from that have "fsub64 (?f ! Suc j) (?f ! j)
        = fsub64 (Fin (p + q * real (Suc j))) (Fin (p + q * real j))"
      by (simp only: nth Suc_lessD)
    also have "\<dots> = round64 (p + q * real (Suc j) - (p + q * real j))"
      by (rule fsub64_Fin)
    also have "p + q * real (Suc j) - (p + q * real j) = q"
      by (simp add: algebra_simps)
    finally show ?thesis by (simp add: q fdiv64_Fin)
  qed
  have central: "fdiv64 (fsub64 (?f ! Suc (Suc j)) (?f ! j)) (Fin 2) = Fin q" if "Suc (Suc j) < n" for j
  proof -
    from that have "j < n" by simp
    with that have "fsub64 (?f ! Suc (Suc j)) (?f ! j)
        = fsub64 (Fin (p + q * real (Suc (Suc j)))) (Fin (p + q * real j))"
      by (simp only: nth)
    also have "\<dots> = round64 (p + q * real (Suc (Suc j)) - (p + q * real j))"
      by (rule fsub64_Fin)
    also have "p + q * real (Suc (Suc j)) - (p + q * real j) = 2 * q"
      by (simp add: algebra_simps)
    finally show ?thesis by (simp add: q2 q fdiv64_Fin)
  qed
  from np_gradient_nth [of ?f] assms(1)
  obtain g where g: "np_gradient ?f = Inr g" "length g = n"
      "\<forall>i<n. g ! i = difference_quotient ?f i"
    by auto
  have "g ! i = Fin q" if i: "i < n" for i
  proof -
    consider (first) "i = 0" | (mid) "0 < i" "i + 1 < n" | (last) "0 < i" "i + 1 = n"
      using i by linarith
    then have "difference_quotient ?f i = Fin q"
    proof cases
      case first
      with assms(1) one_sided [of 0] show ?thesis
        by (simp add: difference_quotient_def)
    next
      case mid
      then obtain j where j: "i = Suc j" by (cases i) auto
      with mid central [of j] show ?thesis
        by (simp add: difference_quotient_def)
    next
      case last
      then obtain j where j: "i = Suc j" by (cases i) auto
      with last one_sided [of j] show ?thesis
        by (simp add: difference_quotient_def)
    qed
    with g(3) i show ?thesis by simp
  qed
  with g(2) have "g = replicate n (Fin q)"
    by (intro nth_equalityI) simp_all
  with g(1) show ?thesis by simp
qed

lemma np_divide_replicate:
  "h \<noteq> 0 \<Longrightarrow>
   np_divide (replicate n (Fin g)) (replicate n (Fin h)) = Inr (replicate n (round64 (g / h)))"
  by (simp add: np_divide_def zip_replicate fdiv64_Fin)

lemma round64_third: "round64 (1 / 3) = Fin (6004799503160661 / 18014398509481984)"
proof -
  have "quantum (1 / 3) = 2 powi (- 2 - 52)"
    by (rule quantum_normal) simp_all
  then have q: "quantum (1 / 3) = 1 / 18014398509481984" by simp
  show ?thesis
    unfolding round64_def Let_def q by (simp add: round_half_even_def)
qed

text \<open>
  C2, as stated, fails. A triple of one sample satisfies every invariant but has no raw
  curve: \<^verbatim>\<open>np.gradient\<close> raises ValueError. And a sample of the curve equals the slope
  only up to rounding. The voltages \<open>0, 1\<close> over the SOC values \<open>0, 3\<close> lie on the line
  of slope \<open>1/3\<close>, and the raw curve holds the \<^verbatim>\<open>float64\<close> nearest to \<open>1/3\<close>, which is
  not \<open>1/3\<close>. On the line through \<open>-2^1023, 0, 2^1023\<close> the central difference overflows
  and the middle sample is infinite. On the scenario of the specification, the
  \<^verbatim>\<open>float64\<close> values nearest to \<open>3.0, 3.1, 3.2, 3.3, 3.4\<close> over those nearest to
  \<open>0.0, 0.2, 0.4, 0.6, 0.8\<close>, the raw curve is \<open>0.5000000000000004\<close>,
  \<open>0.5000000000000004\<close>, \<open>0.4999999999999994\<close>, \<open>0.49999999999999933\<close>,
  \<open>0.5000000000000002\<close>: near the slope \<open>0.5\<close>, never equal to it, and not constant.
\<close>

theorem raw_dv_slope_counterexample:
  "init [Fin 3] [Fin 1] [Fin 0]
     = Inr \<lparr> voltage = [Fin 3], current = [Fin 1], soc = [Fin 0],
             dv_curve = None, degradation_modes = None \<rparr>
   \<and> raw_dv \<lparr> voltage = [Fin 3], current = [Fin 1], soc = [Fin 0],
              dv_curve = None, degradation_modes = None \<rparr> = Inl ValueError
   \<and> init [Fin 0, Fin 1] [Fin 1, Fin 1] [Fin 0, Fin 3]
     = Inr \<lparr> voltage = [Fin 0, Fin 1], current = [Fin 1, Fin 1], soc = [Fin 0, Fin 3],
             dv_curve = None, degradation_modes = None \<rparr>
   \<and> [Fin 0, Fin 3] = map (\<lambda>i. Fin (0 + 3 * real i)) [0..<2]
   \<and> [Fin 0, Fin 1] = map (\<lambda>i. Fin (1 / 3 * (0 + 3 * real i) + 0)) [0..<2]
   \<and> raw_dv \<lparr> voltage = [Fin 0, Fin 1], current = [Fin 1, Fin 1], soc = [Fin 0, Fin 3],
              dv_curve = None, degradation_modes = None \<rparr>
     = Inr [Fin (6004799503160661 / 18014398509481984), Fin (6004799503160661 / 18014398509481984)]
   \<and> Fin (6004799503160661 / 18014398509481984) \<noteq> Fin (1 / 3)
   \<and> init [Fin (- (2 ^ 1023)), Fin 0, Fin (2 ^ 1023)] [Fin 1, Fin 1, Fin 1] [Fin 0, Fin 1, Fin 2]
     = Inr \<lparr> voltage = [Fin (- (2 ^ 1023)), Fin 0, Fin (2 ^ 1023)], current = [Fin 1, Fin 1, Fin 1],
             soc = [Fin 0, Fin 1, Fin 2], dv_curve = None, degradation_modes = None \<rparr>
   \<and> raw_dv \<lparr> voltage = [Fin (- (2 ^ 1023)), Fin 0, Fin (2 ^ 1023)], current = [Fin 1, Fin 1, Fin 1],
              soc = [Fin 0, Fin 1, Fin 2], dv_curve = None, degradation_modes = None \<rparr>
     = Inr [Fin (2 ^ 1023), PInf, Fin (2 ^ 1023)]
   \<and> init [Fin 3, Fin (6980579422424269 / 2251799813685248),
         Fin (3602879701896397 / 1125899906842624), Fin (3715469692580659 / 1125899906842624),
         Fin (7656119366529843 / 2251799813685248)]
        [Fin 1, Fin 1, Fin 1, Fin 1, Fin 1]
        [Fin 0, Fin (3602879701896397 / 18014398509481984),
         Fin (3602879701896397 / 9007199254740992), Fin (5404319552844595 / 9007199254740992),
         Fin (3602879701896397 / 4503599627370496)]
     = Inr \<lparr> voltage = [Fin 3, Fin (6980579422424269 / 2251799813685248),
                       Fin (3602879701896397 / 1125899906842624),
                       Fin (3715469692580659 / 1125899906842624),
                       Fin (7656119366529843 / 2251799813685248)],
             current = [Fin 1, Fin 1, Fin 1, Fin 1, Fin 1],
             soc = [Fin 0, Fin (3602879701896397 / 18014398509481984),
                   Fin (3602879701896397 / 9007199254740992),
                   Fin (5404319552844595 / 9007199254740992),
                   Fin (3602879701896397 / 4503599627370496)],
             dv_curve = None, degradation_modes = None \<rparr>
   \<and> raw_dv \<lparr> voltage = [Fin 3, Fin (6980579422424269 / 2251799813685248),
                       Fin (3602879701896397 / 1125899906842624),
                       Fin (3715469692580659 / 1125899906842624),
                       Fin (7656119366529843 / 2251799813685248)],
              current = [Fin 1, Fin 1, Fin 1, Fin 1, Fin 1],
              soc = [Fin 0, Fin (3602879701896397 / 18014398509481984),
                   Fin (3602879701896397 / 9007199254740992),
                   Fin (5404319552844595 / 9007199254740992),
                   Fin (3602879701896397 / 4503599627370496)],
              dv_curve = None, degradation_modes = None \<rparr>
     = Inr [Fin (1125899906842625 / 2251799813685248),
          Fin (1125899906842625 / 2251799813685248),
          Fin (9007199254740981 / 18014398509481984),
          Fin (2251799813685245 / 4503599627370496),
          Fin (2251799813685249 / 4503599627370496)]"
proof -
  have u: "[0..<2] = [0, 1]" by (simp add: upt_conv_Cons)
  have i1: "init [Fin 3] [Fin 1] [Fin 0]
     = Inr \<lparr> voltage = [Fin 3], current = [Fin 1], soc = [Fin 0],
             dv_curve = None, degradation_modes = None \<rparr>"
    by (simp add: init_def validate_input_def bind_def np_diff_def)
  have r1: "raw_dv \<lparr> voltage = [Fin 3], current = [Fin 1], soc = [Fin 0],
              dv_curve = None, degradation_modes = None \<rparr> = Inl ValueError"
    by (simp add: raw_dv_def np_gradient_def bind_def)
  have i2: "init [Fin 0, Fin 1] [Fin 1, Fin 1] [Fin 0, Fin 3]
     = Inr \<lparr> voltage = [Fin 0, Fin 1], current = [Fin 1, Fin 1], soc = [Fin 0, Fin 3],
             dv_curve = None, degradation_modes = None \<rparr>"
    by (simp add: init_def validate_input_def bind_def np_diff_def fsub_def fge_def)
  have r2: "raw_dv \<lparr> voltage = [Fin 0, Fin 1], current = [Fin 1, Fin 1], soc = [Fin 0, Fin 3],
              dv_curve = None, degradation_modes = None \<rparr>
     = Inr [Fin (6004799503160661 / 18014398509481984), Fin (6004799503160661 / 18014398509481984)]"
    by (simp add: raw_dv_def np_gradient_def bind_def np_divide_def fsub64_Fin fdiv64_Fin
          round64_numeral round64_one round64_third)
  define M :: real where "M = 2 ^ 1023"
  have pos: "0 < M" by (simp add: M_def)
  have "representable (2 ^ 1023)"
    by (rule representable_normal [of 1023]) simp_all
  then have b: "round64 M = Fin M"
    by (simp only: representable_def M_def)
  have "round64 (2 ^ 1023 + 2 ^ 1023) = PInf"
    by (rule round64_overflow) simp
  then have o: "round64 (2 * M) = PInf"
    by (simp add: M_def)
  have i3: "init [Fin (- M), Fin 0, Fin M] [Fin 1, Fin 1, Fin 1] [Fin 0, Fin 1, Fin 2]
     = Inr \<lparr> voltage = [Fin (- M), Fin 0, Fin M], current = [Fin 1, Fin 1, Fin 1],
             soc = [Fin 0, Fin 1, Fin 2], dv_curve = None, degradation_modes = None \<rparr>"
    by (simp add: init_def validate_input_def bind_def np_diff_def fsub_def fge_def)
  have gv: "np_gradient [Fin (- M), Fin 0, Fin M] = Inr [Fin M, PInf, Fin M]"
    by (simp add: np_gradient_def fsub64_Fin fdiv64_def b o)
  have gs: "np_gradient [Fin 0, Fin 1, Fin 2] = Inr [Fin 1, Fin 1, Fin 1]"
    by (simp add: np_gradient_def fsub64_Fin fdiv64_Fin round64_numeral round64_one)
  have r3: "raw_dv \<lparr> voltage = [Fin (- M), Fin 0, Fin M], current = [Fin 1, Fin 1, Fin 1],
              soc = [Fin 0, Fin 1, Fin 2], dv_curve = None, degradation_modes = None \<rparr>
     = Inr [Fin M, PInf, Fin M]"
    by (simp add: raw_dv_def bind_def gv gs np_divide_def fdiv64_def b)
  have e1: "round64 (225179981368525 / 2251799813685248) = Fin (225179981368525 / 2251799813685248)"
    using round64_normal_eval [of "- 4" "225179981368525 / 2251799813685248" 7205759403792800] by simp
  have e2: "round64 (225179981368525 / 1125899906842624) = Fin (225179981368525 / 1125899906842624)"
    using round64_normal_eval [of "- 3" "225179981368525 / 1125899906842624" 7205759403792800] by simp
  have e3: "round64 (450359962737049 / 2251799813685248) = Fin (450359962737049 / 2251799813685248)"
    using round64_normal_eval [of "- 3" "450359962737049 / 2251799813685248" 7205759403792784] by simp
  have e4: "round64 (450359962737049 / 4503599627370496) = Fin (450359962737049 / 4503599627370496)"
    using round64_normal_eval [of "- 4" "450359962737049 / 4503599627370496" 7205759403792784] by simp
  have e5: "round64 (3602879701896397 / 18014398509481984) = Fin (3602879701896397 / 18014398509481984)"
    using round64_normal_eval [of "- 3" "3602879701896397 / 18014398509481984" 7205759403792794] by simp
  have e6: "round64 (3602879701896397 / 9007199254740992) = Fin (3602879701896397 / 9007199254740992)"
    using round64_normal_eval [of "- 2" "3602879701896397 / 9007199254740992" 7205759403792794] by simp
  have e7: "round64 (7205759403792793 / 18014398509481984) = Fin (7205759403792793 / 18014398509481984)"
    using round64_normal_eval [of "- 2" "7205759403792793 / 18014398509481984" 7205759403792793] by simp
  have e8: "round64 (7205759403792793 / 36028797018963968) = Fin (7205759403792793 / 36028797018963968)"
    using round64_normal_eval [of "- 3" "7205759403792793 / 36028797018963968" 7205759403792793] by simp
  have e9: "round64 (1801439850948199 / 9007199254740992) = Fin (1801439850948199 / 9007199254740992)"
    using round64_normal_eval [of "- 3" "1801439850948199 / 9007199254740992" 7205759403792796] by simp
  have e10: "round64 (1801439850948200 / 3602879701896397) = Fin (1125899906842625 / 2251799813685248)"
    using round64_normal_eval [of "- 1" "1801439850948200 / 3602879701896397" 4503599627370500] by simp
  have e11: "round64 (3602879701896392 / 7205759403792793) = Fin (9007199254740981 / 18014398509481984)"
    using round64_normal_eval [of "- 2" "3602879701896392 / 7205759403792793" 9007199254740981] by simp
  have e12: "round64 (1801439850948196 / 3602879701896397) = Fin (2251799813685245 / 4503599627370496)"
    using round64_normal_eval [of "- 2" "1801439850948196 / 3602879701896397" 9007199254740980] by simp
  have e13: "round64 (900719925474100 / 1801439850948199) = Fin (2251799813685249 / 4503599627370496)"
    using round64_normal_eval [of "- 1" "900719925474100 / 1801439850948199" 4503599627370498] by simp
  have i4: "init [Fin 3, Fin (6980579422424269 / 2251799813685248),
         Fin (3602879701896397 / 1125899906842624), Fin (3715469692580659 / 1125899906842624),
         Fin (7656119366529843 / 2251799813685248)]
        [Fin 1, Fin 1, Fin 1, Fin 1, Fin 1]
        [Fin 0, Fin (3602879701896397 / 18014398509481984),
         Fin (3602879701896397 / 9007199254740992), Fin (5404319552844595 / 9007199254740992),
         Fin (3602879701896397 / 4503599627370496)]
     = Inr \<lparr> voltage = [Fin 3, Fin (6980579422424269 / 2251799813685248),
                       Fin (3602879701896397 / 1125899906842624),
                       Fin (3715469692580659 / 1125899906842624),
                       Fin (7656119366529843 / 2251799813685248)],
             current = [Fin 1, Fin 1, Fin 1, Fin 1, Fin 1],
             soc = [Fin 0, Fin (3602879701896397 / 18014398509481984),
                   Fin (3602879701896397 / 9007199254740992),
                   Fin (5404319552844595 / 9007199254740992),
                   Fin (3602879701896397 / 4503599627370496)],
             dv_curve = None, degradation_modes = None \<rparr>"
    by (simp add: init_def validate_input_def bind_def np_diff_def fsub_def fge_def)
  have r4: "raw_dv \<lparr> voltage = [Fin 3, Fin (6980579422424269 / 2251799813685248),
                       Fin (3602879701896397 / 1125899906842624),
                       Fin (3715469692580659 / 1125899906842624),
                       Fin (7656119366529843 / 2251799813685248)],
              current = [Fin 1, Fin 1, Fin 1, Fin 1, Fin 1],
              soc = [Fin 0, Fin (3602879701896397 / 18014398509481984),
                   Fin (3602879701896397 / 9007199254740992),
                   Fin (5404319552844595 / 9007199254740992),
                   Fin (3602879701896397 / 4503599627370496)],
              dv_curve = None, degradation_modes = None \<rparr>
     = Inr [Fin (1125899906842625 / 2251799813685248),
          Fin (1125899906842625 / 2251799813685248),
          Fin (9007199254740981 / 18014398509481984),
          Fin (2251799813685245 / 4503599627370496),
          Fin (2251799813685249 / 4503599627370496)]"
    by (simp add: raw_dv_def np_gradient_def bind_def np_divide_def upt_conv_Cons
          fsub64_Fin fdiv64_Fin e1 e2 e3 e4 e5 e6 e7 e8 e9 e10 e11 e12 e13)
  from i1 r1 i2 r2 i3 r3 i4 r4 show ?thesis
    unfolding M_def by (simp add: u)
qed

text \<open>
  C2, amended: on a validated triple of at least two samples the raw curve is as long as
  the input, and its sample \<open>i\<close> is the quotient of the difference quotient of the
  voltage by that of the SOC at \<open>i\<close> (central inside, one-sided at the two ends), every
  operation rounded to \<^verbatim>\<open>float64\<close>. When SOC advances by a constant step \<open>h > 0\<close> and
  the voltage is \<open>a * soc + b\<close>, and the steps \<open>h\<close>, \<open>2h\<close>, \<open>a * h\<close> and \<open>2 * a * h\<close> are
  representable, so that the differences are computed without rounding error, every
  sample of the raw curve is the slope \<open>a\<close> rounded to \<^verbatim>\<open>float64\<close>: the slope itself when
  \<open>a\<close> is representable.
\<close>

theorem raw_dv_linear:
  assumes "init v c s = Inr self" and "2 \<le> length v"
  shows "(\<exists>curve. raw_dv self = Inr curve \<and> length curve = length v
            \<and> (\<forall>i<length v.
                  curve ! i = fdiv64 (difference_quotient v i) (difference_quotient s i)))
       \<and> np_gradient [Fin 1, Fin 4, Fin 9, Fin 16] = Inr [Fin 3, Fin 4, Fin 6, Fin 7]
       \<and> (0 < h \<and> s = map (\<lambda>i. Fin (s0 + h * real i)) [0..<length v]
              \<and> v = map (\<lambda>i. Fin (a * (s0 + h * real i) + b)) [0..<length v]
              \<and> representable h \<and> representable (2 * h)
              \<and> representable (a * h) \<and> representable (2 * (a * h))
            \<longrightarrow> raw_dv self = Inr (replicate (length v) (round64 a))
                \<and> (representable a \<longrightarrow> raw_dv self = Inr (replicate (length v) (Fin a))))"
proof (intro conjI impI)
  from init_Inr [OF assms(1)]
  have self: "voltage self = v" "soc self = s" and len: "length s = length v"
    by simp_all
  from np_gradient_nth [OF assms(2)]
  obtain gv where gv: "np_gradient v = Inr gv" "length gv = length v"
      "\<forall>i<length v. gv ! i = difference_quotient v i"
    by blast
  from assms(2) len have "2 \<le> length s" by simp
  from np_gradient_nth [OF this] len
  obtain gs where gs: "np_gradient s = Inr gs" "length gs = length v"
      "\<forall>i<length v. gs ! i = difference_quotient s i"
    by auto
  let ?curve = "map (\<lambda>(x, y). fdiv64 x y) (zip gv gs)"
  from gv gs have "raw_dv self = Inr ?curve"
    by (simp add: raw_dv_def self bind_def np_divide_def)
  moreover from gv gs have "length ?curve = length v"
    by simp
  moreover from gv gs
  have "\<forall>i<length v. ?curve ! i = fdiv64 (difference_quotient v i) (difference_quotient s i)"
    by simp
  ultimately show "\<exists>curve. raw_dv self = Inr curve \<and> length curve = length v
            \<and> (\<forall>i<length v.
                  curve ! i = fdiv64 (difference_quotient v i) (difference_quotient s i))"
    by blast
next
  show "np_gradient [Fin 1, Fin 4, Fin 9, Fin 16] = Inr [Fin 3, Fin 4, Fin 6, Fin 7]"
    by (simp add: np_gradient_def upt_conv_Cons fsub64_Fin fdiv64_Fin round64_numeral)
next
  assume lin: "0 < h \<and> s = map (\<lambda>i. Fin (s0 + h * real i)) [0..<length v]
              \<and> v = map (\<lambda>i. Fin (a * (s0 + h * real i) + b)) [0..<length v]
              \<and> representable h \<and> representable (2 * h)
              \<and> representable (a * h) \<and> representable (2 * (a * h))"
  define n where "n = length v"
  from init_Inr [OF assms(1)]
  have self: "voltage self = v" "soc self = s" by simp_all
  from lin have s: "s = map (\<lambda>i. Fin (s0 + h * real i)) [0..<n]"
    by (simp add: n_def)
  from lin have "v = map (\<lambda>i. Fin (a * (s0 + h * real i) + b)) [0..<n]"
    by (simp add: n_def)
  then have v: "v = map (\<lambda>i. Fin ((a * s0 + b) + (a * h) * real i)) [0..<n]"
    by (simp add: algebra_simps)
  from assms(2) have n2: "2 \<le> n" by (simp add: n_def)
  from lin have rh: "representable h" "representable (2 * h)"
    and rah: "representable (a * h)" "representable (2 * (a * h))"
    by simp_all
  have gv: "np_gradient v = Inr (replicate n (Fin (a * h)))"
    unfolding v by (rule np_gradient_linear [OF n2 rah])
  have gs: "np_gradient s = Inr (replicate n (Fin h))"
    unfolding s by (rule np_gradient_linear [OF n2 rh])
  from lin have "h \<noteq> 0" by simp
  then have "np_divide (replicate n (Fin (a * h))) (replicate n (Fin h))
      = Inr (replicate n (round64 a))"
    by (simp add: np_divide_replicate)
  then show r: "raw_dv self = Inr (replicate (length v) (round64 a))"
    by (simp add: raw_dv_def self gv gs bind_def n_def)
  assume "representable a"
  with r show "raw_dv self = Inr (replicate (length v) (Fin a))"
    by (simp add: representable_def)
qed

theorem raw_dv_linear_witness:
  "init [Fin 3, Fin (25 / 8), Fin (13 / 4), Fin (27 / 8)]
        [Fin 1, Fin 1, Fin 1, Fin 1]
        [Fin 0, Fin (1 / 4), Fin (1 / 2), Fin (3 / 4)]
     = Inr \<lparr> voltage = [Fin 3, Fin (25 / 8), Fin (13 / 4), Fin (27 / 8)],
             current = [Fin 1, Fin 1, Fin 1, Fin 1],
             soc = [Fin 0, Fin (1 / 4), Fin (1 / 2), Fin (3 / 4)],
             dv_curve = None, degradation_modes = None \<rparr>
   \<and> representable (1 / 4) \<and> representable (1 / 2) \<and> representable (1 / 8)
   \<and> raw_dv \<lparr> voltage = [Fin 3, Fin (25 / 8), Fin (13 / 4), Fin (27 / 8)],
             current = [Fin 1, Fin 1, Fin 1, Fin 1],
             soc = [Fin 0, Fin (1 / 4), Fin (1 / 2), Fin (3 / 4)],
             dv_curve = None, degradation_modes = None \<rparr>
     = Inr [Fin (1 / 2), Fin (1 / 2), Fin (1 / 2), Fin (1 / 2)]"
proof -
  let ?v = "[Fin 3, Fin (25 / 8), Fin (13 / 4), Fin (27 / 8)]"
  let ?c = "[Fin 1, Fin 1, Fin 1, Fin 1]"
  let ?s = "[Fin 0, Fin (1 / 4), Fin (1 / 2), Fin (3 / 4)]"
  let ?self = "\<lparr> voltage = ?v, current = ?c, soc = ?s, dv_curve = None, degradation_modes = None \<rparr>"
  have i: "init ?v ?c ?s = Inr ?self"
    by (simp add: init_def validate_input_def bind_def np_diff_def fsub_def fge_def)
  have l: "2 \<le> length ?v" by simp
  have u: "[0..<length ?v] = [0, 1, 2, 3]"
    by (simp add: upt_conv_Cons)
  have r4: "representable (1 / 4)"
    by (rule representable_normal [of "- 2"]) simp_all
  have r2: "representable (1 / 2)"
    by (rule representable_normal [of "- 1"]) simp_all
  have r8: "representable (1 / 8)"
    by (rule representable_normal [of "- 3"]) simp_all
  have h: "0 < (1 / 4 :: real) \<and> ?s = map (\<lambda>i. Fin (0 + 1 / 4 * real i)) [0..<length ?v]
      \<and> ?v = map (\<lambda>i. Fin (1 / 2 * (0 + 1 / 4 * real i) + 3)) [0..<length ?v]
      \<and> representable (1 / 4) \<and> representable (2 * (1 / 4))
      \<and> representable (1 / 2 * (1 / 4)) \<and> representable (2 * (1 / 2 * (1 / 4)))"
    unfolding u using r4 r2 r8 by simp
  from raw_dv_linear [OF i l, of "1 / 4" 0 "1 / 2" 3] h r2
  have "raw_dv ?self = Inr (replicate (length ?v) (Fin (1 / 2)))"
    by blast
  with i r4 r2 r8 show ?thesis by (simp add: numeral_eq_Suc)
qed

section \<open>The lamination detectors\<close>

text \<open>
  C5 does not hold of the code. For every peak finder and every curve,
  \<^verbatim>\<open>_detect_lam_ne\<close> hands the finder the negated curve together with
  \<^verbatim>\<open>lam_ne_threshold\<close> itself, the negative number \<open>-0.05\<close>, and not its magnitude
  \<open>0.05\<close>: the curve is negated, the threshold is not. On a curve with a shallow trough
  (depth 0.01, position 1) and a deep one (depth 1, position 8), the finder of the
  specification then reports both, where the threshold \<open>0.05\<close> on the negated curve
  gives the deep one only.
\<close>

theorem detect_lam_ne_threshold:
  "detect_lam_ne indices dv = indices (map fneg dv) (Fin (- (5 / 100))) 5
   \<and> lam_ne_threshold config = Fin (- (5 / 100))
   \<and> fneg (lam_ne_threshold config) = Fin (5 / 100)
   \<and> detect_lam_ne spec_indices
        [Fin 0, Fin (- (1 / 100)), Fin (- (5 / 1000)), Fin (- (4 / 1000)), Fin (- (3 / 1000)),
         Fin (- (2 / 1000)), Fin (- (1 / 1000)), Fin 0, Fin (- 1), Fin 0]
       = Inr [1, 8]
   \<and> spec_indices
        [Fin 0, Fin (1 / 100), Fin (5 / 1000), Fin (4 / 1000), Fin (3 / 1000),
         Fin (2 / 1000), Fin (1 / 1000), Fin 0, Fin 1, Fin 0]
        (Fin (5 / 100)) 5
       = Inr [8]"
proof (intro conjI)
  show "detect_lam_ne indices dv = indices (map fneg dv) (Fin (- (5 / 100))) 5"
    by (simp add: detect_lam_ne_def config_def)
  show "lam_ne_threshold config = Fin (- (5 / 100))"
    by (simp add: config_def)
  show "fneg (lam_ne_threshold config) = Fin (5 / 100)"
    by (simp add: config_def)
  show "detect_lam_ne spec_indices
        [Fin 0, Fin (- (1 / 100)), Fin (- (5 / 1000)), Fin (- (4 / 1000)), Fin (- (3 / 1000)),
         Fin (- (2 / 1000)), Fin (- (1 / 1000)), Fin 0, Fin (- 1), Fin 0]
       = Inr [1, 8]"
    by (simp add: detect_lam_ne_def spec_indices_def candidates_def is_peak_def config_def
          upt_conv_Cons)
  show "spec_indices
        [Fin 0, Fin (1 / 100), Fin (5 / 1000), Fin (4 / 1000), Fin (3 / 1000),
         Fin (2 / 1000), Fin (1 / 1000), Fin 0, Fin 1, Fin 0]
        (Fin (5 / 100)) 5
       = Inr [8]"
    by (simp add: spec_indices_def candidates_def is_peak_def upt_conv_Cons)
qed

section \<open>Minimum distance between detected peaks\<close>

lemma flt_asym: "flt a b \<Longrightarrow> \<not> flt b a"
  by (cases a; cases b) auto

lemma collapse_subset: "set (collapse y d kept cs) \<subseteq> set kept \<union> set cs"
  by (induction y d kept cs rule: collapse.induct) (auto split: if_splits)

lemma collapse_separated:
  "sorted_wrt (<) (rev kept @ cs) \<Longrightarrow> sorted_wrt (\<lambda>a b. b + d \<le> a) kept \<Longrightarrow>
   sorted_wrt (\<lambda>a b. a + d \<le> b) (collapse y d kept cs)"
proof (induction y d kept cs rule: collapse.induct)
  case (1 y d kept)
  then show ?case by (simp add: sorted_wrt_rev)
next
  case (2 y d c cs)
  then show ?case by simp
next
  case (3 y d r kept c cs)
  from "3.prems"(1) have rc: "r < c" and inc: "sorted_wrt (<) (rev kept @ cs)"
    and k_r: "\<forall>b\<in>set kept. b < r" and k_cs: "\<forall>b\<in>set kept. \<forall>x\<in>set cs. b < x"
    and r_cs: "\<forall>x\<in>set cs. r < x" and c_cs: "\<forall>x\<in>set cs. c < x"
    and kk: "sorted_wrt (<) (rev kept)" and cc: "sorted_wrt (<) cs"
    by (auto simp: sorted_wrt_append)
  from "3.prems"(2) have sep: "sorted_wrt (\<lambda>a b. b + d \<le> a) kept" and r_sep: "\<forall>b\<in>set kept. b + d \<le> r"
    by auto
  show ?case
  proof (cases "c - r < d")
    case True
    show ?thesis
    proof (cases "flt (y ! r) (y ! c)")
      case higher: True
      have "sorted_wrt (<) (rev (c # kept) @ cs)"
        using kk cc k_r rc k_cs c_cs by (auto simp: sorted_wrt_append)
      moreover have "sorted_wrt (\<lambda>a b. b + d \<le> a) (c # kept)"
        using sep r_sep rc by auto
      ultimately show ?thesis
        using "3.IH"(1) True higher by simp
    next
      case False
      have "sorted_wrt (<) (rev (r # kept) @ cs)"
        using kk cc k_r k_cs r_cs by (auto simp: sorted_wrt_append)
      then show ?thesis
        using "3.IH"(2) "3.prems"(2) True False by simp
    qed
  next
    case False
    have "sorted_wrt (<) (rev (c # r # kept) @ cs)"
      using "3.prems"(1) by simp
    moreover have "sorted_wrt (\<lambda>a b. b + d \<le> a) (c # r # kept)"
      using sep r_sep rc False by auto
    ultimately show ?thesis
      using "3.IH"(3) False by simp
  qed
qed

lemma collapse_dominant:
  assumes "\<forall>q\<in>set kept \<union> set cs. q \<noteq> p \<and> q < p + d \<and> p < q + d \<longrightarrow> flt (y ! q) (y ! p)"
    and "sorted_wrt (<) (rev kept @ cs)"
    and "p \<in> set kept \<union> set cs"
  shows "p \<in> set (collapse y d kept cs)"
  using assms
proof (induction y d kept cs rule: collapse.induct)
  case (1 y d kept)
  then show ?case by simp
next
  case (2 y d c cs)
  then show ?case by simp
next
  case (3 y d r kept c cs)
  from "3.prems"(2) have rc: "r < c" and k_r: "\<forall>b\<in>set kept. b < r"
    and k_cs: "\<forall>b\<in>set kept. \<forall>x\<in>set cs. b < x"
    and r_cs: "\<forall>x\<in>set cs. r < x" and c_cs: "\<forall>x\<in>set cs. c < x"
    and kk: "sorted_wrt (<) (rev kept)" and cc: "sorted_wrt (<) cs"
    by (auto simp: sorted_wrt_append)
  have dom: "\<And>q. q \<in> insert r (insert c (set kept \<union> set cs)) \<Longrightarrow> q \<noteq> p \<Longrightarrow> q < p + d \<Longrightarrow> p < q + d
               \<Longrightarrow> flt (y ! q) (y ! p)"
    using "3.prems"(1) by auto
  show ?case
  proof (cases "c - r < d")
    case True
    show ?thesis
    proof (cases "flt (y ! r) (y ! c)")
      case higher: True
      have "p \<noteq> r"
      proof
        assume "p = r"
        with rc True have "c \<noteq> p" "c < p + d" "p < c + d" by auto
        from dom [OF _ this] have "flt (y ! c) (y ! p)" by simp
        with higher \<open>p = r\<close> show False using flt_asym by blast
      qed
      with "3.prems"(3) have "p \<in> set (c # kept) \<union> set cs" by auto
      moreover have "sorted_wrt (<) (rev (c # kept) @ cs)"
        using kk cc k_r rc k_cs c_cs by (auto simp: sorted_wrt_append)
      moreover have "\<forall>q\<in>set (c # kept) \<union> set cs. q \<noteq> p \<and> q < p + d \<and> p < q + d \<longrightarrow> flt (y ! q) (y ! p)"
        using dom by auto
      ultimately show ?thesis
        using "3.IH"(1) True higher by simp
    next
      case False
      have "p \<noteq> c"
      proof
        assume "p = c"
        with rc True have "r \<noteq> p" "r < p + d" "p < r + d" by auto
        from dom [OF _ this] have "flt (y ! r) (y ! p)" by simp
        with False \<open>p = c\<close> show False by simp
      qed
      with "3.prems"(3) have "p \<in> set (r # kept) \<union> set cs" by auto
      moreover have "sorted_wrt (<) (rev (r # kept) @ cs)"
        using kk cc k_r k_cs r_cs by (auto simp: sorted_wrt_append)
      moreover have "\<forall>q\<in>set (r # kept) \<union> set cs. q \<noteq> p \<and> q < p + d \<and> p < q + d \<longrightarrow> flt (y ! q) (y ! p)"
        using dom by auto
      ultimately show ?thesis
        using "3.IH"(2) True False by simp
    qed
  next
    case False
    have "p \<in> set (c # r # kept) \<union> set cs" using "3.prems"(3) by auto
    moreover have "sorted_wrt (<) (rev (c # r # kept) @ cs)"
      using "3.prems"(2) by simp
    moreover have "\<forall>q\<in>set (c # r # kept) \<union> set cs. q \<noteq> p \<and> q < p + d \<and> p < q + d \<longrightarrow> flt (y ! q) (y ! p)"
      using dom by auto
    ultimately show ?thesis
      using "3.IH"(3) False by simp
  qed
qed

lemma candidates_increasing: "sorted_wrt (<) (candidates y thres)"
  unfolding candidates_def by (rule sorted_wrt_filter) (simp add: sorted_wrt_upt)

lemma spec_indices_properties:
  "\<exists>ps. spec_indices y t md = Inr ps
      \<and> set ps \<subseteq> set (candidates y t)
      \<and> sorted_wrt (\<lambda>a b. a + nat md \<le> b) ps
      \<and> (\<forall>p\<in>set (candidates y t).
            (\<forall>q\<in>set (candidates y t). q \<noteq> p \<and> q < p + nat md \<and> p < q + nat md
                 \<longrightarrow> flt (y ! q) (y ! p)) \<longrightarrow> p \<in> set ps)"
proof -
  let ?cs = "candidates y t"
  let ?ps = "collapse y (nat md) [] ?cs"
  have "set ?ps \<subseteq> set ?cs"
    using collapse_subset [of y "nat md" "[]" ?cs] by simp
  moreover have "sorted_wrt (\<lambda>a b. a + nat md \<le> b) ?ps"
    using collapse_separated [of "[]" ?cs "nat md" y] candidates_increasing [of y t] by simp
  moreover have "p \<in> set ?ps"
    if "p \<in> set ?cs"
      and "\<forall>q\<in>set ?cs. q \<noteq> p \<and> q < p + nat md \<and> p < q + nat md \<longrightarrow> flt (y ! q) (y ! p)" for p
    using collapse_dominant [of "[]" ?cs p "nat md" y] candidates_increasing [of y t] that by simp
  ultimately show ?thesis
    unfolding spec_indices_def by blast
qed

text \<open>
  C6, amended, for the finder modelled from the specification: for every curve and each
  of the three detectors, the detected positions are candidate peaks, no two of them are
  closer than the configured minimum distance \<^verbatim>\<open>dv_window_size\<close>, and a candidate
  that is strictly higher than every other candidate within that window is always
  retained.
\<close>

theorem nms_min_distance:
  assumes "(detector = detect_lam_pe \<and> y = dv \<and> t = lam_pe_threshold config)
         \<or> (detector = detect_lam_ne \<and> y = map fneg dv \<and> t = lam_ne_threshold config)
         \<or> (detector = detect_lli \<and> y = dv \<and> t = lli_threshold config)"
  shows "\<exists>ps. detector spec_indices dv = Inr ps
      \<and> set ps \<subseteq> set (candidates y t)
      \<and> (\<forall>p\<in>set ps. \<forall>q\<in>set ps. p < q \<longrightarrow> p + nat (dv_window_size config) \<le> q)
      \<and> (\<forall>p\<in>set (candidates y t).
            (\<forall>q\<in>set (candidates y t).
                q \<noteq> p \<and> q < p + nat (dv_window_size config) \<and> p < q + nat (dv_window_size config)
                 \<longrightarrow> flt (y ! q) (y ! p)) \<longrightarrow> p \<in> set ps)"
proof -
  from spec_indices_properties [of y t "dv_window_size config"]
  obtain ps where ps: "spec_indices y t (dv_window_size config) = Inr ps"
    "set ps \<subseteq> set (candidates y t)"
    "sorted_wrt (\<lambda>a b. a + nat (dv_window_size config) \<le> b) ps"
    "\<forall>p\<in>set (candidates y t).
        (\<forall>q\<in>set (candidates y t).
            q \<noteq> p \<and> q < p + nat (dv_window_size config) \<and> p < q + nat (dv_window_size config)
             \<longrightarrow> flt (y ! q) (y ! p)) \<longrightarrow> p \<in> set ps"
    by blast
  from ps(3) have inc: "sorted_wrt (<) ps"
    by (rule sorted_wrt_mono_rel [rotated]) (simp add: config_def)
  have sep: "p + nat (dv_window_size config) \<le> q" if "p \<in> set ps" "q \<in> set ps" "p < q" for p q
  proof -
    from that(1) obtain i where i: "i < length ps" "ps ! i = p" by (auto simp: in_set_conv_nth)
    from that(2) obtain j where j: "j < length ps" "ps ! j = q" by (auto simp: in_set_conv_nth)
    have "i < j"
    proof (rule ccontr)
      assume "\<not> i < j"
      then have "j \<le> i" by simp
      have "ps ! j \<le> ps ! i"
      proof (cases "j = i")
        case True
        then show ?thesis by simp
      next
        case False
        with \<open>j \<le> i\<close> have "j < i" by simp
        from sorted_wrt_nth_less [OF inc this i(1)] show ?thesis by simp
      qed
      with i j that(3) show False by simp
    qed
    from sorted_wrt_nth_less [OF ps(3) this j(1)]
    have "ps ! i + nat (dv_window_size config) \<le> ps ! j" .
    with i j show ?thesis by simp
  qed
  from assms have "detector spec_indices dv = spec_indices y t (dv_window_size config)"
    by (auto simp: detect_lam_pe_def detect_lam_ne_def detect_lli_def)
  with ps sep show ?thesis by auto
qed

theorem nms_min_distance_witness:
  "detect_lam_pe spec_indices
      [Fin 0, Fin 5, Fin 1, Fin (1 / 2), Fin (1 / 5), Fin 4, Fin 1, Fin (1 / 2), Fin (1 / 5), Fin 3, Fin 0]
     = Inr [1, 9]
   \<and> candidates
      [Fin 0, Fin 5, Fin 1, Fin (1 / 2), Fin (1 / 5), Fin 4, Fin 1, Fin (1 / 2), Fin (1 / 5), Fin 3, Fin 0]
      (lam_pe_threshold config) = [1, 5, 9]"
  using nms_min_distance [of detect_lam_pe
      "[Fin 0, Fin 5, Fin 1, Fin (1 / 2), Fin (1 / 5), Fin 4, Fin 1, Fin (1 / 2), Fin (1 / 5), Fin 3, Fin 0]"
      "[Fin 0, Fin 5, Fin 1, Fin (1 / 2), Fin (1 / 5), Fin 4, Fin 1, Fin (1 / 2), Fin (1 / 5), Fin 3, Fin 0]"
      "lam_pe_threshold config"]
  by (simp add: detect_lam_pe_def spec_indices_def candidates_def is_peak_def config_def
        upt_conv_Cons)

text \<open>
  C6, as stated, fails on its second half. On a curve with candidate peaks at positions
  1, 5 and 9 of heights 5, 4 and 3, the candidates 5 and 9 lie within the window of 5;
  the higher of the two, at 5, is not retained (the still higher peak at 1 displaces
  it) and the lower one, at 9, is.
\<close>

theorem nms_higher_wins_counterexample:
  "candidates
      [Fin 0, Fin 5, Fin 1, Fin (1 / 2), Fin (1 / 5), Fin 4, Fin 1, Fin (1 / 2), Fin (1 / 5), Fin 3, Fin 0]
      (lam_pe_threshold config) = [1, 5, 9]
   \<and> (9::nat) < 5 + nat (dv_window_size config)
   \<and> flt ([Fin 0, Fin 5, Fin 1, Fin (1 / 2), Fin (1 / 5), Fin 4, Fin 1, Fin (1 / 2), Fin (1 / 5), Fin 3, Fin 0] ! 9)
          ([Fin 0, Fin 5, Fin 1, Fin (1 / 2), Fin (1 / 5), Fin 4, Fin 1, Fin (1 / 2), Fin (1 / 5), Fin 3, Fin 0] ! 5)
   \<and> detect_lam_pe spec_indices
      [Fin 0, Fin 5, Fin 1, Fin (1 / 2), Fin (1 / 5), Fin 4, Fin 1, Fin (1 / 2), Fin (1 / 5), Fin 3, Fin 0]
     = Inr [1, 9]"
  by (simp add: detect_lam_pe_def spec_indices_def candidates_def is_peak_def config_def
        upt_conv_Cons)

end
